theory Spec2Isabelle
  imports Main
begin

section \<open>The values of the datetime library\<close>

text \<open>
  The script \<^verbatim>\<open>script.py\<close> defines the class \<^verbatim>\<open>DateUtility\<close> on top of Python's
  \<^verbatim>\<open>datetime\<close> module.  The model below follows the reference implementation of that
  module (\<^verbatim>\<open>_pydatetime.py\<close>) for the operations the script uses: construction and
  normalisation of a \<^verbatim>\<open>timedelta\<close>, \<^verbatim>\<open>datetime + timedelta\<close>, \<^verbatim>\<open>datetime - timedelta\<close>,
  \<^verbatim>\<open>datetime - datetime\<close>, the comparison \<^verbatim>\<open><=\<close> and \<^verbatim>\<open>weekday()\<close>.

  Every exception the script can raise is a value of \<open>error\<close>; a function that can
  raise returns \<open>error + 'a\<close> with \<open>Inl\<close> for the exception.
\<close>

datatype error = OSError | ValueError | OverflowError | UnknownTimeZoneError | TypeError

text \<open>
  A \<^verbatim>\<open>timedelta\<close> holds \<^verbatim>\<open>days\<close>, \<^verbatim>\<open>seconds\<close> and \<^verbatim>\<open>microseconds\<close>.  The constructor
  normalises its integer arguments by the three \<^verbatim>\<open>divmod\<close> carries of
  \<^verbatim>\<open>timedelta.__new__\<close> and raises \<^verbatim>\<open>OverflowError\<close> when the number of days exceeds
  999999999 in magnitude.  Python's \<^verbatim>\<open>divmod\<close> by a positive number is \<open>div\<close>/\<open>mod\<close>
  on \<open>int\<close>.
\<close>

record timedelta =
  days :: int
  seconds :: int
  microseconds :: int

definition timedelta_new :: "int \<Rightarrow> int \<Rightarrow> int \<Rightarrow> error + timedelta" where
  "timedelta_new days0 seconds0 microseconds0 =
     (let d = days0 + seconds0 div 86400;
          s = seconds0 mod 86400;
          sec1 = microseconds0 div 1000000;
          us1 = microseconds0 mod 1000000;
          d = d + sec1 div 86400;
          s = s + sec1 mod 86400;
          sec2 = us1 div 1000000;
          us = us1 mod 1000000;
          s = s + sec2;
          d = d + s div 86400;
          s = s mod 86400
      in if \<bar>d\<bar> > 999999999 then Inl OverflowError
         else Inr \<lparr>days = d, seconds = s, microseconds = us\<rparr>)"

definition timedelta_add :: "timedelta \<Rightarrow> timedelta \<Rightarrow> error + timedelta" where
  "timedelta_add a b =
     timedelta_new (days a + days b) (seconds a + seconds b) (microseconds a + microseconds b)"

definition timedelta_neg :: "timedelta \<Rightarrow> error + timedelta" where
  "timedelta_neg a = timedelta_new (- days a) (- seconds a) (- microseconds a)"

text \<open>
  The fields of a \<^verbatim>\<open>datetime\<close> other than its \<^verbatim>\<open>tzinfo\<close>; a value of this record alone
  is a naive datetime, and the section on datetimes with a timezone adds the
  \<^verbatim>\<open>tzinfo\<close>.  The calendar date is held as its proleptic
  Gregorian ordinal, the value of \<^verbatim>\<open>toordinal()\<close>: day 1 is 0001-01-01 and
  \<open>MAXORDINAL\<close> is 9999-12-31.  The library itself computes \<^verbatim>\<open>+\<close>, \<^verbatim>\<open>-\<close> and
  \<^verbatim>\<open>weekday()\<close> through \<^verbatim>\<open>toordinal()\<close> and \<^verbatim>\<open>fromordinal()\<close>; \<open>ymd2ord\<close> below is
  its \<^verbatim>\<open>_ymd2ord\<close> and builds a value from year, month and day.
\<close>

record datetime =
  ordinal :: int
  hour :: int
  minute :: int
  second :: int
  microsecond :: int

definition MAXORDINAL :: int where
  "MAXORDINAL = 3652059"

definition valid_datetime :: "datetime \<Rightarrow> bool" where
  "valid_datetime d =
     (1 \<le> ordinal d \<and> ordinal d \<le> MAXORDINAL \<and>
      0 \<le> hour d \<and> hour d \<le> 23 \<and>
      0 \<le> minute d \<and> minute d \<le> 59 \<and>
      0 \<le> second d \<and> second d \<le> 59 \<and>
      0 \<le> microsecond d \<and> microsecond d \<le> 999999)"

definition is_leap :: "int \<Rightarrow> bool" where
  "is_leap year = (year mod 4 = 0 \<and> (year mod 100 \<noteq> 0 \<or> year mod 400 = 0))"

definition days_before_year :: "int \<Rightarrow> int" where
  "days_before_year year =
     (let y = year - 1 in y * 365 + y div 4 - y div 100 + y div 400)"

definition DAYS_IN_MONTH :: "int list" where
  "DAYS_IN_MONTH = [-1, 31, 28, 31, 30, 31, 30, 31, 31, 30, 31, 30, 31]"

definition days_in_month :: "int \<Rightarrow> int \<Rightarrow> int" where
  "days_in_month year month =
     (if month = 2 \<and> is_leap year then 29 else DAYS_IN_MONTH ! nat month)"

definition days_before_month :: "int \<Rightarrow> int \<Rightarrow> int" where
  "days_before_month year month =
     sum_list (take (nat month - 1) (tl DAYS_IN_MONTH)) +
     (if month > 2 \<and> is_leap year then 1 else 0)"

definition ymd2ord :: "int \<Rightarrow> int \<Rightarrow> int \<Rightarrow> int" where
  "ymd2ord year month day = days_before_year year + days_before_month year month + day"

text \<open>\<^verbatim>\<open>_check_date_fields\<close>: the constructor's range check on year, month and day.\<close>

definition check_date_fields :: "int \<Rightarrow> int \<Rightarrow> int \<Rightarrow> bool" where
  "check_date_fields year month day =
     (1 \<le> year \<and> year \<le> 9999 \<and> 1 \<le> month \<and> month \<le> 12 \<and>
      1 \<le> day \<and> day \<le> days_in_month year month)"

text \<open>\<^verbatim>\<open>datetime.datetime(year, month, day, hour, minute, second, microsecond)\<close>\<close>

definition datetime_new ::
  "int \<Rightarrow> int \<Rightarrow> int \<Rightarrow> int \<Rightarrow> int \<Rightarrow> int \<Rightarrow> int \<Rightarrow> error + datetime" where
  "datetime_new year month day hh mm ss us =
     (if check_date_fields year month day \<and> 0 \<le> hh \<and> hh \<le> 23 \<and> 0 \<le> mm \<and> mm \<le> 59 \<and>
         0 \<le> ss \<and> ss \<le> 59 \<and> 0 \<le> us \<and> us \<le> 999999
      then Inr \<lparr>ordinal = ymd2ord year month day, hour = hh, minute = mm, second = ss,
                microsecond = us\<rparr>
      else Inl ValueError)"

text \<open>
  \<^verbatim>\<open>datetime.__add__\<close>: the datetime becomes a timedelta since day 0, the other
  timedelta is added, and the sum is turned back into a datetime when its day
  number is an ordinal in range; otherwise \<^verbatim>\<open>OverflowError\<close>.
\<close>

definition datetime_add :: "datetime \<Rightarrow> timedelta \<Rightarrow> error + datetime" where
  "datetime_add self other =
     (case timedelta_new (ordinal self)
             (second self + minute self * 60 + hour self * 3600) (microsecond self) of
        Inl e \<Rightarrow> Inl e
      | Inr delta0 \<Rightarrow>
          (case timedelta_add delta0 other of
             Inl e \<Rightarrow> Inl e
           | Inr delta \<Rightarrow>
               (let hh = seconds delta div 3600;
                    rem = seconds delta mod 3600;
                    mm = rem div 60;
                    ss = rem mod 60
                in if 0 < days delta \<and> days delta \<le> MAXORDINAL
                   then Inr \<lparr>ordinal = days delta, hour = hh, minute = mm, second = ss,
                             microsecond = microseconds delta\<rparr>
                   else Inl OverflowError)))"

text \<open>\<^verbatim>\<open>datetime.__sub__\<close> with a timedelta: \<^verbatim>\<open>self + -other\<close>.\<close>

definition datetime_sub_delta :: "datetime \<Rightarrow> timedelta \<Rightarrow> error + datetime" where
  "datetime_sub_delta self other =
     (case timedelta_neg other of Inl e \<Rightarrow> Inl e | Inr n \<Rightarrow> datetime_add self n)"

text \<open>\<^verbatim>\<open>datetime.__sub__\<close> with a datetime of the same (absent) tzinfo.\<close>

definition datetime_diff :: "datetime \<Rightarrow> datetime \<Rightarrow> error + timedelta" where
  "datetime_diff self other =
     (let days1 = ordinal self;
          days2 = ordinal other;
          secs1 = second self + minute self * 60 + hour self * 3600;
          secs2 = second other + minute other * 60 + hour other * 3600
      in timedelta_new (days1 - days2) (secs1 - secs2) (microsecond self - microsecond other))"

text \<open>
  Comparison is Python's tuple comparison of the fields, most significant first
  (\<^verbatim>\<open>_cmp\<close>); the ordinal stands for (year, month, day), in which it is monotone.
\<close>

fun cmp_tuple :: "int list \<Rightarrow> int list \<Rightarrow> int" where
  "cmp_tuple [] [] = 0"
| "cmp_tuple [] (y # ys) = -1"
| "cmp_tuple (x # xs) [] = 1"
| "cmp_tuple (x # xs) (y # ys) =
     (if x < y then -1 else if y < x then 1 else cmp_tuple xs ys)"

definition datetime_cmp :: "datetime \<Rightarrow> datetime \<Rightarrow> int" where
  "datetime_cmp a b =
     cmp_tuple [ordinal a, hour a, minute a, second a, microsecond a]
               [ordinal b, hour b, minute b, second b, microsecond b]"

definition datetime_le :: "datetime \<Rightarrow> datetime \<Rightarrow> bool" where
  "datetime_le a b = (datetime_cmp a b \<le> 0)"

definition datetime_gt :: "datetime \<Rightarrow> datetime \<Rightarrow> bool" where
  "datetime_gt a b = (datetime_cmp a b > 0)"

text \<open>\<^verbatim>\<open>weekday()\<close>: Monday is 0, Sunday is 6.\<close>

definition weekday :: "datetime \<Rightarrow> int" where
  "weekday d = (ordinal d + 6) mod 7"

section \<open>Measures of a datetime\<close>

text \<open>
  Quantities used to state and prove the properties below: the second of the day,
  the microsecond of the day, the number of microseconds since the start of day 0,
  and the day number that \<^verbatim>\<open>datetime.__add__\<close> assigns to an arbitrary field record.
\<close>

definition day_seconds :: "datetime \<Rightarrow> int" where
  "day_seconds d = second d + minute d * 60 + hour d * 3600"

definition day_micros :: "datetime \<Rightarrow> int" where
  "day_micros d = day_seconds d * 1000000 + microsecond d"

definition micros :: "datetime \<Rightarrow> int" where
  "micros d = (ordinal d * 86400 + day_seconds d) * 1000000 + microsecond d"

definition norm_day :: "datetime \<Rightarrow> int" where
  "norm_day d = ordinal d + (day_seconds d + microsecond d div 1000000) div 86400"

section \<open>Facts about the library model\<close>

subsection \<open>Normalisation of a timedelta\<close>

lemma timedelta_new_unfold:
  "timedelta_new d s us =
     (if \<bar>d + s div 86400 + (us div 1000000) div 86400
                   + (s mod 86400 + (us div 1000000) mod 86400) div 86400\<bar> > 999999999
      then Inl OverflowError
      else Inr \<lparr>days = d + s div 86400 + (us div 1000000) div 86400
                   + (s mod 86400 + (us div 1000000) mod 86400) div 86400,
                seconds = (s mod 86400 + (us div 1000000) mod 86400) mod 86400,
                microseconds = us mod 1000000\<rparr>)"
proof -
  have z: "(us mod 1000000) div 1000000 = 0" by simp
  show ?thesis
    unfolding timedelta_new_def Let_def
    by (simp only: z add_0_right mod_mod_trivial)
qed

lemma carry_days:
  fixes s q D :: int
  shows "s div D + q div D + (s mod D + q mod D) div D = (s + q) div D"
  by (rule div_add1_eq [symmetric])

lemma carry_seconds:
  fixes s q D :: int
  shows "(s mod D + q mod D) mod D = (s + q) mod D"
  by (rule mod_add_eq)

lemma timedelta_new_eq:
  "timedelta_new d s us =
     (if \<bar>d + (s + us div 1000000) div 86400\<bar> > 999999999
      then Inl OverflowError
      else Inr \<lparr>days = d + (s + us div 1000000) div 86400,
                seconds = (s + us div 1000000) mod 86400,
                microseconds = us mod 1000000\<rparr>)"
proof -
  have a: "d + s div 86400 + (us div 1000000) div 86400
                   + (s mod 86400 + (us div 1000000) mod 86400) div 86400
         = d + (s + us div 1000000) div 86400"
    using carry_days [of s 86400 "us div 1000000"] by (simp only: add.assoc)
  show ?thesis
    unfolding timedelta_new_unfold a carry_seconds ..
qed

lemma timedelta_new_normal:
  assumes "0 \<le> s" "s < 86400" "0 \<le> us" "us < 1000000"
  shows "timedelta_new d s us =
     (if \<bar>d\<bar> > 999999999 then Inl OverflowError
      else Inr \<lparr>days = d, seconds = s, microseconds = us\<rparr>)"
proof -
  have u: "us div 1000000 = 0" "us mod 1000000 = us" using assms(3,4) by simp_all
  have s: "s div 86400 = 0" "s mod 86400 = s" using assms(1,2) by simp_all
  show ?thesis unfolding timedelta_new_eq u add_0_right s ..
qed

subsection \<open>Adding days to a datetime\<close>

lemma div_mod_digit:
  fixes r q k :: int
  assumes "0 \<le> r" "r < k"
  shows "(r + q * k) div k = q" and "(r + q * k) mod k = r"
  using assms by simp_all

lemma valid_day_seconds:
  assumes "valid_datetime d"
  shows "0 \<le> day_seconds d" and "day_seconds d < 86400"
  using assms unfolding valid_datetime_def day_seconds_def by linarith+

lemma split_day_seconds:
  assumes "0 \<le> hh" "hh \<le> 23" "0 \<le> mm" "mm \<le> 59" "0 \<le> ss" "ss \<le> (59::int)"
  shows "(ss + mm * 60 + hh * 3600) div 3600 = hh"
    and "(ss + mm * 60 + hh * 3600) mod 3600 div 60 = mm"
    and "(ss + mm * 60 + hh * 3600) mod 3600 mod 60 = ss"
proof -
  have r: "0 \<le> ss + mm * 60" "ss + mm * 60 < 3600" using assms by linarith+
  have s: "0 \<le> ss" "ss < 60" using assms by linarith+
  show "(ss + mm * 60 + hh * 3600) div 3600 = hh"
    using div_mod_digit(1) [OF r, of hh] .
  have m: "(ss + mm * 60 + hh * 3600) mod 3600 = ss + mm * 60"
    using div_mod_digit(2) [OF r, of hh] .
  show "(ss + mm * 60 + hh * 3600) mod 3600 div 60 = mm"
    unfolding m using div_mod_digit(1) [OF s, of mm] .
  show "(ss + mm * 60 + hh * 3600) mod 3600 mod 60 = ss"
    unfolding m using div_mod_digit(2) [OF s, of mm] .
qed

lemma datetime_as_delta:
  assumes "valid_datetime d"
  shows "timedelta_new (ordinal d) (second d + minute d * 60 + hour d * 3600) (microsecond d)
         = Inr \<lparr>days = ordinal d, seconds = day_seconds d, microseconds = microsecond d\<rparr>"
proof -
  have us: "0 \<le> microsecond d" "microsecond d < 1000000"
    using assms unfolding valid_datetime_def by linarith+
  have o: "\<not> \<bar>ordinal d\<bar> > 999999999"
    using assms unfolding valid_datetime_def MAXORDINAL_def by linarith
  show ?thesis
    using timedelta_new_normal [OF valid_day_seconds [OF assms] us, of "ordinal d"] o
    unfolding day_seconds_def by simp
qed

lemma datetime_add_days:
  assumes "valid_datetime d"
  shows "datetime_add d \<lparr>days = n, seconds = 0, microseconds = 0\<rparr> =
           (if 0 < ordinal d + n \<and> ordinal d + n \<le> MAXORDINAL
            then Inr (d\<lparr>ordinal := ordinal d + n\<rparr>) else Inl OverflowError)"
proof -
  have us: "0 \<le> microsecond d" "microsecond d < 1000000"
    using assms unfolding valid_datetime_def by linarith+
  have f: "0 \<le> hour d" "hour d \<le> 23" "0 \<le> minute d" "minute d \<le> 59"
      "0 \<le> second d" "second d \<le> 59"
    using assms unfolding valid_datetime_def by linarith+
  note hms = split_day_seconds [OF f]
  have sum: "timedelta_add \<lparr>days = ordinal d, seconds = day_seconds d,
                 microseconds = microsecond d\<rparr> \<lparr>days = n, seconds = 0, microseconds = 0\<rparr>
        = (if \<bar>ordinal d + n\<bar> > 999999999 then Inl OverflowError
           else Inr \<lparr>days = ordinal d + n, seconds = day_seconds d,
                      microseconds = microsecond d\<rparr>)"
    unfolding timedelta_add_def
    using timedelta_new_normal [OF valid_day_seconds [OF assms] us, of "ordinal d + n"]
    by simp
  have hms': "day_seconds d div 3600 = hour d" "day_seconds d mod 3600 div 60 = minute d"
      "day_seconds d mod 3600 mod 60 = second d"
    unfolding day_seconds_def by (rule hms)+
  show ?thesis
  proof (cases "\<bar>ordinal d + n\<bar> > 999999999")
    case True
    then have "\<not> (0 < ordinal d + n \<and> ordinal d + n \<le> MAXORDINAL)"
      unfolding MAXORDINAL_def by linarith
    then show ?thesis
      unfolding datetime_add_def datetime_as_delta [OF assms] using True by (simp add: sum)
  next
    case False
    show ?thesis
      unfolding datetime_add_def datetime_as_delta [OF assms]
      using False by (simp add: sum Let_def hms')
  qed
qed

lemma one_day: "timedelta_new 1 0 0 = Inr \<lparr>days = 1, seconds = 0, microseconds = 0\<rparr>"
  using timedelta_new_normal [of 0 0 1] by simp

lemma seconds_fields_range:
  fixes s :: int
  assumes "0 \<le> s" "s < 86400"
  shows "0 \<le> s div 3600" "s div 3600 \<le> 23"
    "0 \<le> s mod 3600 div 60" "s mod 3600 div 60 \<le> 59"
    "0 \<le> s mod 3600 mod 60" "s mod 3600 mod 60 \<le> 59"
proof -
  show "0 \<le> s div 3600" using assms(1) by (simp add: pos_imp_zdiv_nonneg_iff)
  have "s div 3600 \<le> 86399 div 3600" using assms(2) by (intro zdiv_mono1) simp_all
  then show "s div 3600 \<le> 23" by simp
  have r: "0 \<le> s mod 3600" "s mod 3600 < 3600" by simp_all
  show "0 \<le> s mod 3600 div 60" using r(1) by (simp add: pos_imp_zdiv_nonneg_iff)
  have "s mod 3600 div 60 \<le> 3599 div 60" using r(2) by (intro zdiv_mono1) simp_all
  then show "s mod 3600 div 60 \<le> 59" by simp
  show "0 \<le> s mod 3600 mod 60" by simp
  have "s mod 3600 mod 60 < 60" by simp
  then show "s mod 3600 mod 60 \<le> 59" by simp
qed

lemma datetime_add_one_day_general:
  assumes "datetime_add cur \<lparr>days = 1, seconds = 0, microseconds = 0\<rparr> = Inr nxt"
  shows "valid_datetime nxt" and "ordinal nxt = norm_day cur + 1"
proof -
  define D0 where "D0 = norm_day cur"
  define s0 where "s0 = (day_seconds cur + microsecond cur div 1000000) mod 86400"
  define u0 where "u0 = microsecond cur mod 1000000"
  define h0 where "h0 = s0 div 3600"
  define m0 where "m0 = s0 mod 3600 div 60"
  define c0 where "c0 = s0 mod 3600 mod 60"
  define r where "r = \<lparr>ordinal = D0 + 1, hour = h0, minute = m0, second = c0, microsecond = u0\<rparr>"
  have s0: "0 \<le> s0" "s0 < 86400" unfolding s0_def by simp_all
  have u0: "0 \<le> u0" "u0 < 1000000" unfolding u0_def by simp_all
  have first: "timedelta_new (ordinal cur)
         (second cur + minute cur * 60 + hour cur * 3600) (microsecond cur)
       = (if \<bar>D0\<bar> > 999999999 then Inl OverflowError
          else Inr \<lparr>days = D0, seconds = s0, microseconds = u0\<rparr>)"
    unfolding timedelta_new_eq D0_def s0_def u0_def norm_day_def day_seconds_def ..
  have sum: "timedelta_add \<lparr>days = D0, seconds = s0, microseconds = u0\<rparr>
                 \<lparr>days = 1, seconds = 0, microseconds = 0\<rparr>
        = (if \<bar>D0 + 1\<bar> > 999999999 then Inl OverflowError
           else Inr \<lparr>days = D0 + 1, seconds = s0, microseconds = u0\<rparr>)"
    unfolding timedelta_add_def using timedelta_new_normal [OF s0 u0, of "D0 + 1"] by simp
  have eq: "datetime_add cur \<lparr>days = 1, seconds = 0, microseconds = 0\<rparr> =
      (if \<bar>D0\<bar> > 999999999 then Inl OverflowError
       else if \<bar>D0 + 1\<bar> > 999999999 then Inl OverflowError
       else if 0 < D0 + 1 \<and> D0 + 1 \<le> MAXORDINAL then Inr r else Inl OverflowError)"
  proof (cases "\<bar>D0\<bar> > 999999999")
    case True
    show ?thesis unfolding datetime_add_def first if_P [OF True] by simp
  next
    case a: False
    show ?thesis
    proof (cases "\<bar>D0 + 1\<bar> > 999999999")
      case True
      show ?thesis unfolding datetime_add_def first if_not_P [OF a] if_P [OF True]
        by (simp only: sum.case sum if_P [OF True])
    next
      case b: False
      show ?thesis unfolding datetime_add_def first if_not_P [OF a] if_not_P [OF b]
        by (simp only: sum.case sum if_not_P [OF b] Let_def timedelta.simps
              h0_def [symmetric] m0_def [symmetric] c0_def [symmetric] r_def [symmetric])
    qed
  qed
  have ok: "0 < D0 + 1 \<and> D0 + 1 \<le> MAXORDINAL"
  proof (rule ccontr)
    assume n: "\<not> (0 < D0 + 1 \<and> D0 + 1 \<le> MAXORDINAL)"
    have "datetime_add cur \<lparr>days = 1, seconds = 0, microseconds = 0\<rparr> = Inl OverflowError"
      unfolding eq if_not_P [OF n] by (simp only: if_cancel)
    with assms show False by simp
  qed
  have "datetime_add cur \<lparr>days = 1, seconds = 0, microseconds = 0\<rparr> = Inr r \<or>
        datetime_add cur \<lparr>days = 1, seconds = 0, microseconds = 0\<rparr> = Inl OverflowError"
    unfolding eq if_P [OF ok]
    by (cases "\<bar>D0\<bar> > 999999999"; cases "\<bar>D0 + 1\<bar> > 999999999";
        simp only: if_True if_False simp_thms)
  with assms have nxt: "nxt = r" by auto
  show "ordinal nxt = norm_day cur + 1" unfolding nxt r_def D0_def by simp
  have f: "0 \<le> h0" "h0 \<le> 23" "0 \<le> m0" "m0 \<le> 59" "0 \<le> c0" "c0 \<le> 59"
    unfolding h0_def m0_def c0_def by (rule seconds_fields_range [OF s0])+
  show "valid_datetime nxt"
    unfolding valid_datetime_def nxt r_def
    using f u0 ok by simp
qed

subsection \<open>The difference of two datetimes\<close>

lemma floor_days:
  fixes d s us :: int
  shows "d + (s + us div 1000000) div 86400 = ((d * 86400 + s) * 1000000 + us) div 86400000000"
proof -
  have "((d * 86400 + s) * 1000000 + us) div 86400000000
        = ((d * 86400 + s) * 1000000 + us) div (1000000 * 86400)" by simp
  also have "\<dots> = (((d * 86400 + s) * 1000000 + us) div 1000000) div 86400"
    by (rule zdiv_zmult2_eq) simp
  also have "((d * 86400 + s) * 1000000 + us) div 1000000 = (d * 86400 + s) + us div 1000000"
    by simp
  also have "((d * 86400 + s) + us div 1000000) div 86400 = d + (s + us div 1000000) div 86400"
    by (simp add: add.assoc)
  finally show ?thesis by simp
qed

lemma datetime_diff_eq:
  "datetime_diff b a =
     (if \<bar>(micros b - micros a) div 86400000000\<bar> > 999999999 then Inl OverflowError
      else Inr \<lparr>days = (micros b - micros a) div 86400000000,
                seconds = (day_seconds b - day_seconds a
                            + (microsecond b - microsecond a) div 1000000) mod 86400,
                microseconds = (microsecond b - microsecond a) mod 1000000\<rparr>)"
proof -
  have m: "micros b - micros a =
           ((ordinal b - ordinal a) * 86400 + (day_seconds b - day_seconds a)) * 1000000
            + (microsecond b - microsecond a)"
    unfolding micros_def by (simp add: algebra_simps)
  show ?thesis
    unfolding datetime_diff_def Let_def timedelta_new_eq floor_days m day_seconds_def ..
qed

lemma micros_split: "micros d = ordinal d * 86400000000 + day_micros d"
  unfolding micros_def day_micros_def by (simp add: algebra_simps)

lemma valid_day_micros:
  assumes "valid_datetime d"
  shows "0 \<le> day_micros d" and "day_micros d < 86400000000"
proof -
  have us: "0 \<le> microsecond d" "microsecond d < 1000000"
    using assms unfolding valid_datetime_def by linarith+
  note s = valid_day_seconds [OF assms]
  show "0 \<le> day_micros d" unfolding day_micros_def using s(1) us(1) by simp
  have "day_seconds d \<le> 86399" using s(2) by simp
  then show "day_micros d < 86400000000" unfolding day_micros_def using us(2) by linarith
qed

lemma quotient_bounds:
  fixes x lo hi :: int
  assumes "lo * 86400000000 \<le> x" "x < hi * 86400000000"
  shows "lo \<le> x div 86400000000" and "x div 86400000000 < hi"
proof -
  define q where "q = x div 86400000000"
  define r where "r = x mod 86400000000"
  have x: "x = 86400000000 * q + r" unfolding q_def r_def by simp
  have r: "0 \<le> r" "r < 86400000000" unfolding r_def by simp_all
  show "lo \<le> q" using assms(1) x r by linarith
  show "q < hi" using assms(2) x r by linarith
qed


lemma datetime_cmp_valid:
  assumes "valid_datetime a" "valid_datetime b"
  shows "datetime_cmp a b =
           (if micros a < micros b then -1 else if micros b < micros a then 1 else 0)"
  using assms
  unfolding datetime_cmp_def micros_def day_seconds_def valid_datetime_def
  by (simp; linarith)

lemma micros_bounds:
  assumes "valid_datetime d"
  shows "86400000000 \<le> micros d" and "micros d < 3652060 * 86400000000"
proof -
  note t = valid_day_micros [OF assms]
  have o: "1 \<le> ordinal d" "ordinal d \<le> 3652059"
    using assms unfolding valid_datetime_def MAXORDINAL_def by simp_all
  show "86400000000 \<le> micros d" unfolding micros_split using t(1) o(1) by linarith
  show "micros d < 3652060 * 86400000000" unfolding micros_split using t(2) o(2) by linarith
qed

section \<open>The holiday calendar\<close>

text \<open>
  \<^verbatim>\<open>self.holidays\<close> is a dict from timezone name to a dict from key to holiday label.
  A key of the inner dict is any hashable Python value; the kinds that reach it are a
  \<^verbatim>\<open>datetime.date\<close> (given by its ordinal), a naive \<^verbatim>\<open>datetime.datetime\<close>, and a
  \<^verbatim>\<open>datetime.datetime\<close> with a UTC offset, which hashes and compares by its UTC instant
  (in microseconds).  A \<^verbatim>\<open>date\<close> and a \<^verbatim>\<open>datetime\<close> are never equal in Python
  (\<^verbatim>\<open>datetime.__eq__\<close> answers \<^verbatim>\<open>False\<close> for a plain date), and a naive datetime is
  never equal to one with an offset, which the constructors express.
\<close>

datatype pykey = Date int | DateTime datetime | Instant int

type_synonym calendar = "string \<rightharpoonup> (pykey \<rightharpoonup> string)"

section \<open>The operations of the script\<close>

text \<open>
  The methods of \<^verbatim>\<open>DateUtility\<close>, in the order of the source.  \<^verbatim>\<open>self.holidays\<close> is the
  only state of the object and is never assigned after \<^verbatim>\<open>__init__\<close>; the methods that
  read it take it as their first argument.
\<close>

text \<open>\<^verbatim>\<open>add_dt\<close>: \<^verbatim>\<open>from_date + datetime.timedelta(days=number_of_days)\<close>\<close>

definition add_dt :: "datetime \<Rightarrow> int \<Rightarrow> error + datetime" where
  "add_dt from_date number_of_days =
     (case timedelta_new number_of_days 0 0 of
        Inl e \<Rightarrow> Inl e
      | Inr delta \<Rightarrow> datetime_add from_date delta)"

text \<open>\<^verbatim>\<open>sub_dt\<close>: \<^verbatim>\<open>from_date - datetime.timedelta(days=number_of_days)\<close>\<close>

definition sub_dt :: "datetime \<Rightarrow> int \<Rightarrow> error + datetime" where
  "sub_dt from_date number_of_days =
     (case timedelta_new number_of_days 0 0 of
        Inl e \<Rightarrow> Inl e
      | Inr delta \<Rightarrow> datetime_sub_delta from_date delta)"

text \<open>\<^verbatim>\<open>get_days\<close>: \<^verbatim>\<open>(to_date - from_date).days\<close>\<close>

definition get_days :: "datetime \<Rightarrow> datetime \<Rightarrow> error + int" where
  "get_days from_date to_date =
     (case datetime_diff to_date from_date of
        Inl e \<Rightarrow> Inl e
      | Inr delta \<Rightarrow> Inr (days delta))"

text \<open>
  The statement \<^verbatim>\<open>current_date += datetime.timedelta(days=1)\<close> of the two loops.
\<close>

definition next_day :: "datetime \<Rightarrow> error + datetime" where
  "next_day current_date =
     (case timedelta_new 1 0 0 of
        Inl e \<Rightarrow> Inl e
      | Inr one_day \<Rightarrow> datetime_add current_date one_day)"

lemma norm_day_valid:
  assumes "valid_datetime d"
  shows "norm_day d = ordinal d"
proof -
  have us: "microsecond d div 1000000 = 0"
    using assms unfolding valid_datetime_def by simp
  have "day_seconds d div 86400 = 0"
    using valid_day_seconds [OF assms] by simp
  then show ?thesis unfolding norm_day_def us by simp
qed

lemma next_day_result:
  assumes "next_day cur = Inr nxt"
  shows "valid_datetime nxt" and "norm_day nxt = norm_day cur + 1"
    and "norm_day nxt \<le> MAXORDINAL"
proof -
  from assms have a: "datetime_add cur \<lparr>days = 1, seconds = 0, microseconds = 0\<rparr> = Inr nxt"
    unfolding next_day_def one_day by simp
  show v: "valid_datetime nxt" by (rule datetime_add_one_day_general(1) [OF a])
  show "norm_day nxt = norm_day cur + 1"
    unfolding norm_day_valid [OF v] by (rule datetime_add_one_day_general(2) [OF a])
  show "norm_day nxt \<le> MAXORDINAL"
    unfolding norm_day_valid [OF v] using v unfolding valid_datetime_def by simp
qed

lemma next_day_valid:
  assumes "valid_datetime d"
  shows "next_day d =
           (if ordinal d < MAXORDINAL then Inr (d\<lparr>ordinal := ordinal d + 1\<rparr>)
            else Inl OverflowError)"
proof -
  have "0 < ordinal d + 1" using assms unfolding valid_datetime_def by simp
  then show ?thesis
    unfolding next_day_def one_day using datetime_add_days [OF assms, of 1] by simp
qed

text \<open>
  \<^verbatim>\<open>count_weekends\<close>: the \<^verbatim>\<open>while\<close> loop is a recursive function of the loop variables
  \<^verbatim>\<open>current_date\<close> and \<^verbatim>\<open>weekends\<close>.  It terminates on every input: each increment
  that does not raise moves the day number up by one, and the day number of a
  datetime is at most \<open>MAXORDINAL\<close>.
\<close>

function count_weekends_loop :: "datetime \<Rightarrow> datetime \<Rightarrow> int \<Rightarrow> error + int" where
  "count_weekends_loop current_date to_date weekends =
     (if datetime_le current_date to_date
      then (let weekends' = (if weekday current_date \<ge> 5 then weekends + 1 else weekends)
            in case next_day current_date of
                 Inl e \<Rightarrow> Inl e
               | Inr current_date' \<Rightarrow> count_weekends_loop current_date' to_date weekends')
      else Inr weekends)"
  by pat_completeness auto
termination
proof (relation "measure (\<lambda>(current_date, to_date, weekends).
                   nat (MAXORDINAL - norm_day current_date))")
  show "wf (measure (\<lambda>(current_date, to_date, weekends).
                   nat (MAXORDINAL - norm_day current_date)))" by simp
next
  fix current_date to_date :: datetime and weekends weekends' :: int
    and current_date' :: datetime
  assume "next_day current_date = Inr current_date'"
  from next_day_result(2,3) [OF this]
  show "((current_date', to_date, weekends'), current_date, to_date, weekends)
        \<in> measure (\<lambda>(current_date, to_date, weekends). nat (MAXORDINAL - norm_day current_date))"
    by simp
qed

definition count_weekends :: "datetime \<Rightarrow> datetime \<Rightarrow> error + int" where
  "count_weekends from_date to_date = count_weekends_loop from_date to_date 0"




text \<open>\<^verbatim>\<open>is_holiday\<close>\<close>

definition is_holiday :: "calendar \<Rightarrow> pykey \<Rightarrow> string \<Rightarrow> bool" where
  "is_holiday holidays date timezone =
     (case holidays timezone of
        None \<Rightarrow> False
      | Some sub \<Rightarrow> (case sub date of None \<Rightarrow> False | Some label \<Rightarrow> True))"

text \<open>
  \<^verbatim>\<open>get_business_days\<close>: the method has the two parameters \<^verbatim>\<open>from_date\<close> and
  \<^verbatim>\<open>to_date\<close>; the timezone of the holiday lookup is the literal \<^verbatim>\<open>"US/Eastern"\<close>, and
  the value looked up is the loop variable itself, a \<^verbatim>\<open>datetime\<close>.
\<close>

function get_business_days_loop ::
  "calendar \<Rightarrow> datetime \<Rightarrow> datetime \<Rightarrow> int \<Rightarrow> error + int" where
  "get_business_days_loop holidays current_date to_date business_days =
     (if datetime_le current_date to_date
      then (let business_days' =
                  (if weekday current_date < 5 \<and>
                      \<not> is_holiday holidays (DateTime current_date) ''US/Eastern''
                   then business_days + 1 else business_days)
            in case next_day current_date of
                 Inl e \<Rightarrow> Inl e
               | Inr current_date' \<Rightarrow>
                   get_business_days_loop holidays current_date' to_date business_days')
      else Inr business_days)"
  by pat_completeness auto
termination
proof (relation "measure (\<lambda>(holidays, current_date, to_date, business_days).
                   nat (MAXORDINAL - norm_day current_date))")
  show "wf (measure (\<lambda>(holidays, current_date, to_date, business_days).
                   nat (MAXORDINAL - norm_day current_date)))" by simp
next
  fix holidays :: calendar and current_date to_date :: datetime
    and business_days business_days' :: int and current_date' :: datetime
  assume "next_day current_date = Inr current_date'"
  from next_day_result(2,3) [OF this]
  show "((holidays, current_date', to_date, business_days'),
         holidays, current_date, to_date, business_days)
        \<in> measure (\<lambda>(holidays, current_date, to_date, business_days).
              nat (MAXORDINAL - norm_day current_date))"
    by simp
qed

definition get_business_days :: "calendar \<Rightarrow> datetime \<Rightarrow> datetime \<Rightarrow> error + int" where
  "get_business_days holidays from_date to_date =
     get_business_days_loop holidays from_date to_date 0"

section \<open>Example values\<close>

text \<open>
  \<^verbatim>\<open>datetime.datetime(year, month, day, hh, mm)\<close> for fields that are in range, used
  to write the concrete inputs below, and the ordinals of the dates that occur.
\<close>

definition mk_datetime :: "int \<Rightarrow> int \<Rightarrow> int \<Rightarrow> int \<Rightarrow> int \<Rightarrow> datetime" where
  "mk_datetime year month day hh mm =
     \<lparr>ordinal = ymd2ord year month day, hour = hh, minute = mm, second = 0, microsecond = 0\<rparr>"

lemmas ymd_defs = ymd2ord_def days_before_year_def days_before_month_def DAYS_IN_MONTH_def
  is_leap_def Let_def

lemma ordinal_examples:
  "ymd2ord 2022 12 22 = 738511" "ymd2ord 2023 1 2 = 738522" "ymd2ord 2022 12 26 = 738515"
  "ymd2ord 1970 1 1 = 719163" "ymd2ord 9999 12 31 = 3652059" "ymd2ord 2022 12 25 = 738514"
  by (simp_all add: ymd_defs)

section \<open>Day differences\<close>

lemma get_days_valid:
  assumes "valid_datetime a" "valid_datetime b"
  shows "get_days a b = Inr ((micros b - micros a) div 86400000000)"
proof -
  note ma = micros_bounds [OF assms(1)] and mb = micros_bounds [OF assms(2)]
  have lo: "(- 3652060) * 86400000000 \<le> micros b - micros a" using ma mb by linarith
  have hi: "micros b - micros a < 3652060 * 86400000000" using ma mb by linarith
  note q = quotient_bounds [OF lo hi]
  have "\<not> \<bar>(micros b - micros a) div 86400000000\<bar> > 999999999"
    using q by linarith
  then show ?thesis unfolding get_days_def datetime_diff_eq by simp
qed


lemma datetime_order_valid:
  assumes "valid_datetime a" "valid_datetime b"
  shows "datetime_le a b \<longleftrightarrow> micros a \<le> micros b"
    and "datetime_gt a b \<longleftrightarrow> micros b < micros a"
  unfolding datetime_le_def datetime_gt_def datetime_cmp_valid [OF assms] by simp_all

text \<open>
  The day difference as the specification words it: the duration \<open>to - from\<close> in
  whole days, with the remainder discarded toward zero.
\<close>

definition daysBetween_truncated :: "datetime \<Rightarrow> datetime \<Rightarrow> int" where
  "daysBetween_truncated from_date to_date =
     (let delta = micros to_date - micros from_date
      in sgn delta * (\<bar>delta\<bar> div 86400000000))"

text \<open>
  C2, as the code has it.  For all datetimes \<open>a\<close> and \<open>b\<close>, \<open>get_days a b\<close> is the
  duration \<open>b - a\<close> in whole days rounded toward minus infinity (floor division of
  the microsecond difference by the microseconds of a day): this is the \<^verbatim>\<open>days\<close> field
  of the normalised \<^verbatim>\<open>timedelta\<close>.  It is strictly negative whenever \<open>b\<close> precedes
  \<open>a\<close>, and it agrees with truncation toward zero whenever \<open>a \<le> b\<close>.
\<close>

theorem get_days_floor:
  assumes "valid_datetime a" "valid_datetime b"
  shows "get_days a b = Inr ((micros b - micros a) div 86400000000) \<and>
         (datetime_gt a b \<longrightarrow> (micros b - micros a) div 86400000000 < 0) \<and>
         (datetime_le a b \<longrightarrow>
            (micros b - micros a) div 86400000000 = daysBetween_truncated a b)"
proof (intro conjI impI)
  show "get_days a b = Inr ((micros b - micros a) div 86400000000)"
    by (rule get_days_valid [OF assms])
next
  assume "datetime_gt a b"
  then have "micros b - micros a < 0"
    unfolding datetime_order_valid(2) [OF assms] by simp
  then show "(micros b - micros a) div 86400000000 < 0"
    by (simp add: pos_imp_zdiv_neg_iff)
next
  assume "datetime_le a b"
  then have "0 \<le> micros b - micros a"
    unfolding datetime_order_valid(1) [OF assms] by simp
  then show "(micros b - micros a) div 86400000000 = daysBetween_truncated a b"
    unfolding daysBetween_truncated_def Let_def
    by (cases "micros b - micros a = 0") (simp_all add: sgn_if)
qed

theorem get_days_floor_witness:
  "datetime_gt (mk_datetime 2022 12 22 12 0)
               (mk_datetime 2022 12 22 0 0) \<and>
   get_days (mk_datetime 2022 12 22 12 0)
            (mk_datetime 2022 12 22 0 0)
     = Inr (- 1) \<and>
   datetime_le (mk_datetime 2022 12 22 0 0)
               (mk_datetime 2023 1 2 0 0) \<and>
   get_days (mk_datetime 2022 12 22 0 0)
            (mk_datetime 2023 1 2 0 0)
     = Inr 11 \<and>
   daysBetween_truncated
            (mk_datetime 2022 12 22 0 0)
            (mk_datetime 2023 1 2 0 0)
     = 11"
  using get_days_floor
    [of "mk_datetime 2022 12 22 12 0" "mk_datetime 2022 12 22 0 0"]
    get_days_floor
    [of "mk_datetime 2022 12 22 0 0" "mk_datetime 2023 1 2 0 0"]
  by (simp add: mk_datetime_def ordinal_examples valid_datetime_def MAXORDINAL_def micros_def day_seconds_def
        datetime_gt_def datetime_le_def datetime_cmp_def daysBetween_truncated_def)

text \<open>
  C2 as stated fails: from 2022-12-22 12:00 to 2022-12-22 00:00 the duration is minus
  twelve hours, which truncates to 0 days, and \<open>get_days\<close> returns -1.
\<close>

theorem get_days_truncation_counterexample:
  "get_days (mk_datetime 2022 12 22 12 0)
            (mk_datetime 2022 12 22 0 0)
     = Inr (- 1) \<and>
   daysBetween_truncated
            (mk_datetime 2022 12 22 12 0)
            (mk_datetime 2022 12 22 0 0)
     = 0"
proof -
  have v: "valid_datetime (mk_datetime 2022 12 22 12 0)"
      "valid_datetime (mk_datetime 2022 12 22 0 0)"
    by (simp_all add: mk_datetime_def ordinal_examples valid_datetime_def MAXORDINAL_def)
  show ?thesis
    unfolding get_days_valid [OF v]
    by (simp add: mk_datetime_def ordinal_examples micros_def day_seconds_def daysBetween_truncated_def)
qed

section \<open>Adding and subtracting days\<close>

lemma timedelta_days:
  "timedelta_new n 0 0 =
     (if \<bar>n\<bar> > 999999999 then Inl OverflowError
      else Inr \<lparr>days = n, seconds = 0, microseconds = 0\<rparr>)"
  using timedelta_new_normal [of 0 0 n] by simp

lemma add_dt_valid:
  assumes "valid_datetime d"
  shows "add_dt d n =
           (if 0 < ordinal d + n \<and> ordinal d + n \<le> MAXORDINAL
            then Inr (d\<lparr>ordinal := ordinal d + n\<rparr>) else Inl OverflowError)"
proof (cases "\<bar>n\<bar> > 999999999")
  case True
  have "\<not> (0 < ordinal d + n \<and> ordinal d + n \<le> MAXORDINAL)"
    using True assms unfolding valid_datetime_def MAXORDINAL_def by linarith
  then show ?thesis unfolding add_dt_def timedelta_days using True by simp
next
  case False
  then show ?thesis
    unfolding add_dt_def timedelta_days using datetime_add_days [OF assms, of n] by simp
qed

lemma sub_dt_valid:
  assumes "valid_datetime d"
  shows "sub_dt d n =
           (if 0 < ordinal d - n \<and> ordinal d - n \<le> MAXORDINAL
            then Inr (d\<lparr>ordinal := ordinal d - n\<rparr>) else Inl OverflowError)"
proof (cases "\<bar>n\<bar> > 999999999")
  case True
  have "\<not> (0 < ordinal d - n \<and> ordinal d - n \<le> MAXORDINAL)"
    using True assms unfolding valid_datetime_def MAXORDINAL_def by linarith
  then show ?thesis unfolding sub_dt_def timedelta_days using True by simp
next
  case False
  then have neg: "timedelta_neg \<lparr>days = n, seconds = 0, microseconds = 0\<rparr>
                  = Inr \<lparr>days = - n, seconds = 0, microseconds = 0\<rparr>"
    unfolding timedelta_neg_def using timedelta_days [of "- n"] by simp
  show ?thesis
    unfolding sub_dt_def timedelta_days datetime_sub_delta_def
    using False datetime_add_days [OF assms, of "- n"] by (simp add: neg)
qed

lemma valid_shift:
  assumes "valid_datetime d" "0 < k" "k \<le> MAXORDINAL"
  shows "valid_datetime (d\<lparr>ordinal := k\<rparr>)"
  using assms unfolding valid_datetime_def by simp

text \<open>
  C4, as the code has it.  For every datetime \<open>d\<close> and every integer \<open>n\<close> (zero and
  negative included): when the date \<open>n\<close> days after \<open>d\<close> lies between 0001-01-01 and
  9999-12-31, \<open>add_dt d n\<close> returns \<open>d\<close> moved by \<open>n\<close> days and \<open>sub_dt\<close> of that
  result and \<open>n\<close> returns \<open>d\<close> exactly; otherwise \<open>add_dt d n\<close> raises
  \<^verbatim>\<open>OverflowError\<close>.
\<close>

theorem add_then_sub_days:
  assumes "valid_datetime d"
  shows "(0 < ordinal d + n \<and> ordinal d + n \<le> MAXORDINAL \<longrightarrow>
            add_dt d n = Inr (d\<lparr>ordinal := ordinal d + n\<rparr>) \<and>
            sub_dt (d\<lparr>ordinal := ordinal d + n\<rparr>) n = Inr d) \<and>
         (\<not> (0 < ordinal d + n \<and> ordinal d + n \<le> MAXORDINAL) \<longrightarrow>
            add_dt d n = Inl OverflowError)"
proof (intro conjI impI)
  assume r: "0 < ordinal d + n \<and> ordinal d + n \<le> MAXORDINAL"
  then show "add_dt d n = Inr (d\<lparr>ordinal := ordinal d + n\<rparr>)"
    unfolding add_dt_valid [OF assms] by simp
  have v: "valid_datetime (d\<lparr>ordinal := ordinal d + n\<rparr>)"
    using valid_shift [OF assms] r by simp
  have o: "0 < ordinal d \<and> ordinal d \<le> MAXORDINAL"
    using assms unfolding valid_datetime_def by simp
  show "sub_dt (d\<lparr>ordinal := ordinal d + n\<rparr>) n = Inr d"
    unfolding sub_dt_valid [OF v] using o by simp
next
  assume "\<not> (0 < ordinal d + n \<and> ordinal d + n \<le> MAXORDINAL)"
  then show "add_dt d n = Inl OverflowError"
    unfolding add_dt_valid [OF assms] by simp
qed

theorem add_then_sub_days_witness:
  "add_dt (mk_datetime 2022 12 22 0 0) 11 = Inr (mk_datetime 2023 1 2 0 0) \<and>
   sub_dt (mk_datetime 2023 1 2 0 0) 11 = Inr (mk_datetime 2022 12 22 0 0) \<and>
   add_dt (mk_datetime 9999 12 31 0 0) 1 = Inl OverflowError"
  using add_then_sub_days [of "mk_datetime 2022 12 22 0 0" 11]
    add_then_sub_days [of "mk_datetime 9999 12 31 0 0" 1]
  by (simp add: mk_datetime_def ordinal_examples valid_datetime_def MAXORDINAL_def)

text \<open>
  C4 as stated fails: adding one day to 9999-12-31, or ten million days to
  2022-12-22, raises \<^verbatim>\<open>OverflowError\<close>, so no datetime comes back.
\<close>

theorem add_then_sub_days_counterexample:
  "add_dt (mk_datetime 9999 12 31 0 0) 1 = Inl OverflowError \<and>
   add_dt (mk_datetime 2022 12 22 0 0) 10000000 = Inl OverflowError"
proof -
  have v: "valid_datetime (mk_datetime 9999 12 31 0 0)"
      "valid_datetime (mk_datetime 2022 12 22 0 0)"
    by (simp_all add: mk_datetime_def ordinal_examples valid_datetime_def MAXORDINAL_def)
  show ?thesis
    unfolding add_dt_valid [OF v(1)] add_dt_valid [OF v(2)]
    by (simp add: mk_datetime_def ordinal_examples MAXORDINAL_def)
qed

section \<open>Weekends in a reversed range\<close>

text \<open>
  C5.  For all datetimes \<open>a\<close> and \<open>b\<close> with \<open>a > b\<close>, \<open>count_weekends a b\<close> returns 0:
  the loop condition is false at once.
\<close>

theorem count_weekends_reversed:
  assumes "datetime_gt a b"
  shows "count_weekends a b = Inr 0"
proof -
  have "\<not> datetime_le a b"
    using assms unfolding datetime_gt_def datetime_le_def by simp
  then show ?thesis
    unfolding count_weekends_def by (subst count_weekends_loop.simps) simp
qed

theorem count_weekends_reversed_witness:
  "datetime_gt (mk_datetime 2023 1 2 0 0) (mk_datetime 2022 12 22 0 0) \<and>
   count_weekends (mk_datetime 2023 1 2 0 0) (mk_datetime 2022 12 22 0 0) = Inr 0"
proof -
  have g: "datetime_gt (mk_datetime 2023 1 2 0 0) (mk_datetime 2022 12 22 0 0)"
    by (simp add: datetime_gt_def datetime_cmp_def mk_datetime_def ordinal_examples)
  show ?thesis using g count_weekends_reversed [OF g] by simp
qed

section \<open>The day loops\<close>

text \<open>
  Both loops visit \<open>from_date\<close>, \<open>from_date\<close> plus one day, and so on while the value is
  \<open>\<le> to_date\<close>; the time of day never changes.  \<open>last_day\<close> is the ordinal of the last
  value visited when there is one: the day of \<open>to_date\<close>, or the day before when
  \<open>from_date\<close> has the later time of day.  \<open>count_days P from_date lo hi\<close> counts the
  visited values with ordinal in \<open>lo..hi\<close> that satisfy \<open>P\<close>.
\<close>

definition last_day :: "datetime \<Rightarrow> datetime \<Rightarrow> int" where
  "last_day from_date to_date =
     (if day_micros from_date \<le> day_micros to_date then ordinal to_date
      else ordinal to_date - 1)"

definition count_days :: "(datetime \<Rightarrow> bool) \<Rightarrow> datetime \<Rightarrow> int \<Rightarrow> int \<Rightarrow> int" where
  "count_days P from_date lo hi =
     int (length (filter (\<lambda>k. P (from_date\<lparr>ordinal := k\<rparr>)) [lo..hi]))"


lemma count_days_empty: "hi < lo \<Longrightarrow> count_days P d lo hi = 0"
  unfolding count_days_def by simp

lemma count_days_first:
  assumes "lo \<le> hi"
  shows "count_days P d lo hi =
           (if P (d\<lparr>ordinal := lo\<rparr>) then 1 else 0) + count_days P d (lo + 1) hi"
  unfolding count_days_def upto_rec1 [OF assms] by simp

lemma count_days_shift:
  "count_days P (d\<lparr>ordinal := k\<rparr>) lo hi = count_days P d lo hi"
  unfolding count_days_def by simp

lemma last_day_shift: "last_day (d\<lparr>ordinal := k\<rparr>) b = last_day d b"
  unfolding last_day_def day_micros_def day_seconds_def by simp

lemma datetime_le_last_day:
  assumes "valid_datetime a" "valid_datetime b"
  shows "datetime_le a b \<longleftrightarrow> ordinal a \<le> last_day a b"
proof -
  note ta = valid_day_micros [OF assms(1)] and tb = valid_day_micros [OF assms(2)]
  show ?thesis
    unfolding datetime_order_valid(1) [OF assms] micros_split last_day_def
    using ta tb by (cases "day_micros a \<le> day_micros b") auto
qed

lemma last_day_le_max:
  assumes "valid_datetime b"
  shows "last_day a b \<le> MAXORDINAL"
  using assms unfolding last_day_def valid_datetime_def by simp

lemma self_update: "d\<lparr>ordinal := ordinal d\<rparr> = (d::datetime)"
  by simp


lemma get_business_days_loop_valid:
  assumes "valid_datetime to_date"
  shows "valid_datetime cur \<Longrightarrow>
         get_business_days_loop holidays cur to_date w =
           (if last_day cur to_date < ordinal cur then Inr w
            else if last_day cur to_date = MAXORDINAL then Inl OverflowError
            else Inr (w + count_days (\<lambda>d. weekday d < 5 \<and> \<not> is_holiday holidays (DateTime d) ''US/Eastern'') cur (ordinal cur)
                            (last_day cur to_date)))"
proof (induction "nat (last_day cur to_date + 1 - ordinal cur)" arbitrary: cur w)
  case 0
  then have "last_day cur to_date < ordinal cur" by simp
  moreover from this have "\<not> datetime_le cur to_date"
    unfolding datetime_le_last_day [OF "0.prems" assms] by simp
  ultimately show ?case by (subst get_business_days_loop.simps) simp
next
  case (Suc n)
  define L where "L = last_day cur to_date"
  define k where "k = ordinal cur"
  from Suc.hyps(2) have le: "k \<le> L" unfolding L_def k_def by simp
  then have dle: "datetime_le cur to_date"
    unfolding datetime_le_last_day [OF Suc.prems assms] L_def k_def .
  have Lmax: "L \<le> MAXORDINAL" unfolding L_def by (rule last_day_le_max [OF assms])
  show ?case
  proof (cases "k < MAXORDINAL")
    case False
    with le Lmax have "L = MAXORDINAL" by simp
    moreover have "next_day cur = Inl OverflowError"
      unfolding next_day_valid [OF Suc.prems] using False unfolding k_def by simp
    ultimately show ?thesis
      using le dle unfolding L_def k_def
      by (subst get_business_days_loop.simps) (simp add: Let_def)
  next
    case True
    define cur' where "cur' = cur\<lparr>ordinal := k + 1\<rparr>"
    have nxt: "next_day cur = Inr cur'"
      unfolding next_day_valid [OF Suc.prems] cur'_def using True unfolding k_def by simp
    have v': "valid_datetime cur'"
      unfolding cur'_def using Suc.prems True unfolding valid_datetime_def k_def by simp
    have L': "last_day cur' to_date = L" unfolding cur'_def L_def by (rule last_day_shift)
    have o': "ordinal cur' = k + 1" unfolding cur'_def by simp
    have n: "n = nat (last_day cur' to_date + 1 - ordinal cur')"
      unfolding L' o' using Suc.hyps(2) unfolding L_def k_def by simp
    define w' where "w' = (if weekday cur < 5 \<and> \<not> is_holiday holidays (DateTime cur) ''US/Eastern''
                     then w + 1 else w)"
    note IH = Suc.hyps(1) [OF n v', of w', unfolded L' o']
    have step: "get_business_days_loop holidays cur to_date w = get_business_days_loop holidays cur' to_date w'"
      using dle nxt unfolding w'_def
      by (subst get_business_days_loop.simps) (simp add: Let_def)
    have first: "count_days (\<lambda>d. weekday d < 5 \<and> \<not> is_holiday holidays (DateTime d) ''US/Eastern'') cur k L =
                 (if weekday cur < 5 \<and> \<not> is_holiday holidays (DateTime cur) ''US/Eastern''
                  then 1 else 0)
                 + count_days (\<lambda>d. weekday d < 5 \<and> \<not> is_holiday holidays (DateTime d) ''US/Eastern'') cur (k + 1) L"
      using count_days_first [OF le, of "\<lambda>d. weekday d < 5 \<and> \<not> is_holiday holidays (DateTime d) ''US/Eastern''" cur]
      unfolding k_def self_update .
    have shift: "count_days (\<lambda>d. weekday d < 5 \<and> \<not> is_holiday holidays (DateTime d) ''US/Eastern'') cur' (k + 1) L
                 = count_days (\<lambda>d. weekday d < 5 \<and> \<not> is_holiday holidays (DateTime d) ''US/Eastern'') cur (k + 1) L"
      unfolding cur'_def by (rule count_days_shift)
    have nle: "\<not> L < k" using le by simp
    show ?thesis
      unfolding step IH L_def [symmetric] k_def [symmetric] shift first
      using nle le True count_days_empty [of L "k + 1" "\<lambda>d. weekday d < 5 \<and> \<not> is_holiday holidays (DateTime d) ''US/Eastern''" cur]
      unfolding w'_def by auto
  qed
qed


lemma get_business_days_valid:
  assumes "valid_datetime a" "valid_datetime b"
  shows "get_business_days holidays a b =
           (if last_day a b < ordinal a then Inr 0
            else if last_day a b = MAXORDINAL then Inl OverflowError
            else Inr (count_days
                        (\<lambda>d. weekday d < 5 \<and> \<not> is_holiday holidays (DateTime d) ''US/Eastern'')
                        a (ordinal a) (last_day a b)))"
  unfolding get_business_days_def get_business_days_loop_valid [OF assms(2,1)] by simp





lemma example_valid:
  "valid_datetime (mk_datetime 2022 12 22 0 0)" "valid_datetime (mk_datetime 2023 1 2 0 0)"
  "valid_datetime (mk_datetime 2022 12 26 0 0)" "valid_datetime (mk_datetime 9999 12 31 0 0)"
  "valid_datetime (mk_datetime 9999 12 30 0 0)" "valid_datetime (mk_datetime 2022 12 22 12 0)"
  by (simp_all add: mk_datetime_def ymd_defs valid_datetime_def MAXORDINAL_def)

lemmas example_defs = mk_datetime_def ymd_defs last_day_def day_micros_def day_seconds_def
  MAXORDINAL_def count_days_def weekday_def is_holiday_def

section \<open>Loading the holiday file\<close>

text \<open>
  \<^verbatim>\<open>load_holidays\<close> reads text, so the library functions it calls are modelled on
  strings: \<^verbatim>\<open>str.strip()\<close>, \<^verbatim>\<open>str.split(', ')\<close> and
  \<^verbatim>\<open>datetime.strptime(date_str, "%Y%m%d")\<close>.  A \<open>char\<close> stands for a code point below
  256.  \<open>isspace\<close> lists the code points below 256 that \<^verbatim>\<open>str.isspace()\<close> accepts.
\<close>

definition isspace :: "char \<Rightarrow> bool" where
  "isspace c = (of_char c \<in> {9, 10, 11, 12, 13, 28, 29, 30, 31, 32, 133, 160 :: nat})"

definition strip :: "string \<Rightarrow> string" where
  "strip s = rev (dropWhile isspace (rev (dropWhile isspace s)))"

text \<open>
  \<^verbatim>\<open>s.split(', ')\<close>: the separator is searched from the left, occurrences do not
  overlap, and the result always has at least one field.  The first argument
  collects the current field in reverse.
\<close>

fun split_comma_space :: "string \<Rightarrow> string \<Rightarrow> string list" where
  "split_comma_space field [] = [rev field]"
| "split_comma_space field [c] = [rev (c # field)]"
| "split_comma_space field (c1 # c2 # rest) =
     (if c1 = CHR '','' \<and> c2 = CHR '' '' then rev field # split_comma_space [] rest
      else split_comma_space (c1 # field) (c2 # rest))"

text \<open>
  \<^verbatim>\<open>strptime\<close> compiles \<^verbatim>\<open>"%Y%m%d"\<close> to the regular expression
  \<^verbatim>\<open>(?P<Y>\d\d\d\d)(?P<m>1[0-2]|0[1-9]|[1-9])(?P<d>3[0-1]|[1-2]\d|0[1-9]|[1-9]| [1-9])\<close>
  and takes the first match of \<^verbatim>\<open>re.match\<close>.  Each \<open>match_\<close> function lists, in the order
  the alternatives are tried, the ways its group matches a prefix, with the rest of the
  string; the first element of \<open>regex_match_Ymd\<close> is the match the backtracking
  search finds.
\<close>

definition isdigit :: "char \<Rightarrow> bool" where
  "isdigit c = (48 \<le> (of_char c :: nat) \<and> (of_char c :: nat) \<le> 57)"

definition in_range :: "char \<Rightarrow> char \<Rightarrow> char \<Rightarrow> bool" where
  "in_range lo hi c = ((of_char lo :: nat) \<le> of_char c \<and> (of_char c :: nat) \<le> of_char hi)"

definition match_Y :: "string \<Rightarrow> (string \<times> string) list" where
  "match_Y s =
     (case s of
        c1 # c2 # c3 # c4 # rest \<Rightarrow>
          (if isdigit c1 \<and> isdigit c2 \<and> isdigit c3 \<and> isdigit c4
           then [([c1, c2, c3, c4], rest)] else [])
      | _ \<Rightarrow> [])"

definition match_two :: "(char \<Rightarrow> bool) \<Rightarrow> (char \<Rightarrow> bool) \<Rightarrow> string \<Rightarrow> (string \<times> string) list" where
  "match_two p1 p2 s =
     (case s of c1 # c2 # rest \<Rightarrow> (if p1 c1 \<and> p2 c2 then [([c1, c2], rest)] else []) | _ \<Rightarrow> [])"

definition match_one :: "(char \<Rightarrow> bool) \<Rightarrow> string \<Rightarrow> (string \<times> string) list" where
  "match_one p s = (case s of c # rest \<Rightarrow> (if p c then [([c], rest)] else []) | _ \<Rightarrow> [])"

definition match_m :: "string \<Rightarrow> (string \<times> string) list" where
  "match_m s =
     match_two (\<lambda>c. c = CHR ''1'') (in_range CHR ''0'' CHR ''2'') s @
     match_two (\<lambda>c. c = CHR ''0'') (in_range CHR ''1'' CHR ''9'') s @
     match_one (in_range CHR ''1'' CHR ''9'') s"

definition match_d :: "string \<Rightarrow> (string \<times> string) list" where
  "match_d s =
     match_two (\<lambda>c. c = CHR ''3'') (in_range CHR ''0'' CHR ''1'') s @
     match_two (in_range CHR ''1'' CHR ''2'') isdigit s @
     match_two (\<lambda>c. c = CHR ''0'') (in_range CHR ''1'' CHR ''9'') s @
     match_one (in_range CHR ''1'' CHR ''9'') s @
     match_two (\<lambda>c. c = CHR '' '') (in_range CHR ''1'' CHR ''9'') s"

definition regex_match_Ymd :: "string \<Rightarrow> (string \<times> string \<times> string \<times> string) list" where
  "regex_match_Ymd s =
     concat (map (\<lambda>(Y, r1).
       concat (map (\<lambda>(m, r2).
         map (\<lambda>(d, r3). (Y, m, d, r3)) (match_d r2)) (match_m r1))) (match_Y s))"

text \<open>
  After the match \<^verbatim>\<open>_strptime\<close> raises \<^verbatim>\<open>ValueError\<close> when part of the string is left
  over, converts the groups with \<^verbatim>\<open>int\<close>, and the \<^verbatim>\<open>datetime\<close> constructor raises
  \<^verbatim>\<open>ValueError\<close> when the fields are not a date.  The result is the \<^verbatim>\<open>.date()\<close> of the
  parsed datetime, given by its ordinal.
\<close>

definition py_int :: "string \<Rightarrow> int" where
  "py_int s = foldl (\<lambda>n c. n * 10 + (int (of_char c) - 48)) 0 (strip s)"

definition strptime_Ymd_date :: "string \<Rightarrow> error + int" where
  "strptime_Ymd_date data_string =
     (case regex_match_Ymd data_string of
        [] \<Rightarrow> Inl ValueError
      | (Y, m, d, unconverted) # _ \<Rightarrow>
          (if unconverted \<noteq> [] then Inl ValueError
           else (let year = py_int Y; month = py_int m; day = py_int d
                 in if check_date_fields year month day
                    then Inr (ymd2ord year month day) else Inl ValueError)))"

text \<open>
  \<^verbatim>\<open>load_holidays\<close>: \<open>files\<close> maps a path to the list \<^verbatim>\<open>readlines()\<close> returns for it, and a
  path that cannot be opened raises \<^verbatim>\<open>OSError\<close>.  The loop over the lines after the
  header is \<open>load_lines\<close>; unpacking a split that has not exactly three fields raises
  \<^verbatim>\<open>ValueError\<close>.
\<close>

fun load_lines :: "string list \<Rightarrow> calendar \<Rightarrow> error + calendar" where
  "load_lines [] holidays = Inr holidays"
| "load_lines (line # lines) holidays =
     (case split_comma_space [] (strip line) of
        [timezone, date_str, holiday] \<Rightarrow>
          (case strptime_Ymd_date date_str of
             Inl e \<Rightarrow> Inl e
           | Inr date \<Rightarrow>
               (let sub = (case holidays timezone of None \<Rightarrow> Map.empty | Some sub \<Rightarrow> sub)
                in load_lines lines (holidays(timezone \<mapsto> sub(Date date \<mapsto> holiday)))))
      | _ \<Rightarrow> Inl ValueError)"

definition load_holidays :: "(string \<rightharpoonup> string list) \<Rightarrow> string \<Rightarrow> error + calendar" where
  "load_holidays files holidays_file =
     (case files holidays_file of
        None \<Rightarrow> Inl OSError
      | Some all_lines \<Rightarrow> load_lines (drop 1 all_lines) Map.empty)"

text \<open>A line of the file loads when it splits into three fields and the second parses.\<close>

definition line_parses :: "string \<Rightarrow> bool" where
  "line_parses line =
     (case split_comma_space [] (strip line) of
        [timezone, date_str, holiday] \<Rightarrow>
          (case strptime_Ymd_date date_str of Inl e \<Rightarrow> False | Inr date \<Rightarrow> True)
      | _ \<Rightarrow> False)"

text \<open>The characters that can occur in a date field that parses.\<close>

definition date_char :: "char \<Rightarrow> bool" where
  "date_char c = (isdigit c \<or> c = CHR '' '')"

text \<open>
  \<^verbatim>\<open>convert_dt\<close>: the timezone database of \<^verbatim>\<open>pytz\<close> is not part of the script and is a
  parameter: \<open>zones\<close> maps an identifier the database recognises to its timezone,
  \<open>localize\<close> and \<open>astimezone\<close> are the two library calls.  \<^verbatim>\<open>pytz.timezone\<close> raises
  \<^verbatim>\<open>UnknownTimeZoneError\<close> for an identifier that is not recognised.
\<close>

definition pytz_timezone :: "(string \<rightharpoonup> 'tz) \<Rightarrow> string \<Rightarrow> error + 'tz" where
  "pytz_timezone zones zone =
     (case zones zone of None \<Rightarrow> Inl UnknownTimeZoneError | Some tz \<Rightarrow> Inr tz)"

definition convert_dt ::
  "(string \<rightharpoonup> 'tz) \<Rightarrow> ('tz \<Rightarrow> datetime \<Rightarrow> error + 'aware) \<Rightarrow> ('aware \<Rightarrow> 'tz \<Rightarrow> error + 'aware) \<Rightarrow>
   datetime \<Rightarrow> string \<Rightarrow> string \<Rightarrow> error + 'aware" where
  "convert_dt zones localize astimezone from_date from_date_TZ to_date_TZ =
     (case pytz_timezone zones from_date_TZ of
        Inl e \<Rightarrow> Inl e
      | Inr from_timezone \<Rightarrow>
          (case pytz_timezone zones to_date_TZ of
             Inl e \<Rightarrow> Inl e
           | Inr to_timezone \<Rightarrow>
               (case localize from_timezone from_date of
                  Inl e \<Rightarrow> Inl e
                | Inr from_date' \<Rightarrow> astimezone from_date' to_timezone)))"

lemmas parse_defs = strip_def isspace_def isdigit_def in_range_def match_Y_def match_two_def
  match_one_def match_m_def match_d_def regex_match_Ymd_def py_int_def strptime_Ymd_date_def
  check_date_fields_def days_in_month_def

lemma strptime_error:
  assumes "strptime_Ymd_date s = Inl e"
  shows "e = ValueError"
  using assms unfolding strptime_Ymd_date_def
  by (auto simp: Let_def split: list.splits if_splits prod.splits)

lemma load_lines_error:
  "load_lines ls h = Inl e \<Longrightarrow> e = ValueError"
proof (induction ls arbitrary: h)
  case Nil
  then show ?case by simp
next
  case (Cons line ls)
  show ?case
  proof (cases "line_parses line")
    case False
    with Cons.prems show ?thesis
      unfolding line_parses_def
      by (auto simp: Let_def split: list.splits sum.splits dest: strptime_error)
  next
    case True
    then obtain tz ds label date where
      f: "split_comma_space [] (strip line) = [tz, ds, label]" "strptime_Ymd_date ds = Inr date"
      unfolding line_parses_def by (auto split: list.splits sum.splits)
    from Cons.prems show ?thesis
      using Cons.IH by (simp add: f Let_def)
  qed
qed

lemma load_lines_ok:
  "(\<exists>cal. load_lines ls h = Inr cal) \<longleftrightarrow> list_all line_parses ls"
proof (induction ls arbitrary: h)
  case Nil
  then show ?case by simp
next
  case (Cons line ls)
  show ?case
  proof (cases "line_parses line")
    case False
    then have "\<And>cal. load_lines (line # ls) h \<noteq> Inr cal"
      unfolding line_parses_def by (auto split: list.splits sum.splits)
    with False show ?thesis by simp
  next
    case True
    then obtain tz ds label date where
      f: "split_comma_space [] (strip line) = [tz, ds, label]" "strptime_Ymd_date ds = Inr date"
      unfolding line_parses_def by (auto split: list.splits sum.splits)
    show ?thesis using True Cons.IH by (simp add: f Let_def)
  qed
qed

lemma load_lines_only_dates:
  assumes "load_lines ls h = Inr cal"
    and "\<And>key zone. \<forall>n. key \<noteq> Date n \<Longrightarrow> \<not> is_holiday h key zone"
    and "\<forall>n. key \<noteq> Date n"
  shows "\<not> is_holiday cal key zone"
  using assms(1,2)
proof (induction ls arbitrary: h)
  case Nil
  from Nil(2) [OF assms(3)] Nil(1) show ?case by simp
next
  case (Cons line ls)
  from Cons.prems(1) obtain z ds label date where
    f: "split_comma_space [] (strip line) = [z, ds, label]" "strptime_Ymd_date ds = Inr date"
    by (auto split: list.splits sum.splits)
  define sub where "sub = (case h z of None \<Rightarrow> Map.empty | Some sub \<Rightarrow> sub)"
  define h' where "h' = h(z \<mapsto> sub(Date date \<mapsto> label))"
  from Cons.prems(1) have l: "load_lines ls h' = Inr cal"
    by (simp add: f Let_def h'_def sub_def)
  have "\<not> is_holiday h' key' zone'" if k: "\<forall>n. key' \<noteq> Date n" for key' zone'
    using Cons.prems(2) [OF k, of zone'] k unfolding h'_def sub_def is_holiday_def
    by (auto split: option.splits)
  from Cons.IH [OF l this] show ?case .
qed

lemma load_holidays_only_dates:
  assumes "load_holidays files holidays_file = Inr holidays" "\<forall>n. key \<noteq> Date n"
  shows "\<not> is_holiday holidays key zone"
proof -
  from assms(1) obtain all_lines where
    l: "load_lines (drop 1 all_lines) Map.empty = Inr holidays"
    unfolding load_holidays_def by (auto split: option.splits)
  have e: "\<not> is_holiday Map.empty key' zone'" for key' zone'
    unfolding is_holiday_def by simp
  from load_lines_only_dates [OF l e assms(2)] show ?thesis .
qed

lemma match_two_shape:
  assumes "(g, r) \<in> set (match_two p1 p2 s)"
  shows "\<exists>c1 c2. g = [c1, c2] \<and> p1 c1 \<and> p2 c2 \<and> s = c1 # c2 # r"
  using assms unfolding match_two_def by (auto split: list.splits if_splits)

lemma match_one_shape:
  assumes "(g, r) \<in> set (match_one p s)"
  shows "\<exists>c. g = [c] \<and> p c \<and> s = c # r"
  using assms unfolding match_one_def by (auto split: list.splits if_splits)

lemma in_range_digit:
  "in_range CHR ''0'' CHR ''1'' c \<Longrightarrow> isdigit c"
  "in_range CHR ''0'' CHR ''2'' c \<Longrightarrow> isdigit c"
  "in_range CHR ''1'' CHR ''2'' c \<Longrightarrow> isdigit c"
  "in_range CHR ''1'' CHR ''9'' c \<Longrightarrow> isdigit c"
  "isdigit CHR ''0''" "isdigit CHR ''1''" "isdigit CHR ''3''"
  unfolding in_range_def isdigit_def by simp_all

lemma match_m_shape:
  assumes "(g, r) \<in> set (match_m s)"
  shows "s = g @ r \<and> 1 \<le> length g \<and> length g \<le> 2 \<and> list_all date_char g"
  using assms unfolding match_m_def date_char_def
  by (auto dest!: match_two_shape match_one_shape simp: in_range_digit)

lemma match_d_shape:
  assumes "(g, r) \<in> set (match_d s)"
  shows "s = g @ r \<and> 1 \<le> length g \<and> length g \<le> 2 \<and> list_all date_char g"
  using assms unfolding match_d_def date_char_def
  by (auto dest!: match_two_shape match_one_shape simp: in_range_digit)

lemma match_Y_shape:
  assumes "(g, r) \<in> set (match_Y s)"
  shows "s = g @ r \<and> length g = 4 \<and> list_all date_char g"
  using assms unfolding match_Y_def date_char_def
  by (auto split: list.splits if_splits)

lemma regex_match_shape:
  assumes "(Y, m, d, r) \<in> set (regex_match_Ymd s)"
  shows "s = Y @ m @ d @ r \<and> length Y = 4 \<and> 1 \<le> length m \<and> length m \<le> 2 \<and>
         1 \<le> length d \<and> length d \<le> 2 \<and> list_all date_char (Y @ m @ d)"
proof -
  from assms obtain r1 r2 where
    "(Y, r1) \<in> set (match_Y s)" "(m, r2) \<in> set (match_m r1)" "(d, r) \<in> set (match_d r2)"
    unfolding regex_match_Ymd_def by auto
  from match_Y_shape [OF this(1)] match_m_shape [OF this(2)] match_d_shape [OF this(3)]
  show ?thesis by simp
qed

lemma strptime_accepts_shape:
  assumes "strptime_Ymd_date s = Inr date"
  shows "6 \<le> length s \<and> length s \<le> 8 \<and> list_all date_char s"
proof -
  from assms obtain Y m d rest where
    r: "regex_match_Ymd s = (Y, m, d, []) # rest"
    unfolding strptime_Ymd_date_def
    by (auto simp: Let_def split: list.splits if_splits)
  then have "(Y, m, d, []) \<in> set (regex_match_Ymd s)" by simp
  from regex_match_shape [OF this] show ?thesis by auto
qed

section \<open>Unrecognised timezones\<close>

text \<open>
  C7, as the code has it.  \<open>convert_dt\<close> raises \<^verbatim>\<open>UnknownTimeZoneError\<close>, which reaches
  the caller, when the source or the target identifier is not recognised.  The
  holiday lookup raises nothing: for a timezone that is not a key of the calendar,
  recognised or not, \<open>is_holiday\<close> returns \<open>False\<close>.
\<close>

theorem unknown_timezone:
  "(zones from_tz = None \<or> zones to_tz = None \<longrightarrow>
      convert_dt zones localize astimezone d from_tz to_tz = Inl UnknownTimeZoneError) \<and>
   (holidays tz = None \<longrightarrow> is_holiday holidays key tz = False)"
  unfolding convert_dt_def pytz_timezone_def is_holiday_def
  by (auto split: option.splits)

theorem unknown_timezone_witness:
  "convert_dt [''UTC'' \<mapsto> (0::int), ''US/Eastern'' \<mapsto> - 5]
     (\<lambda>tz d. Inr (d, tz)) (\<lambda>(d, tz) tz'. Inr (d\<lparr>hour := hour d + tz' - tz\<rparr>, tz'))
     (mk_datetime 2022 12 22 12 0) ''UTC'' ''Mars/Phobos'' = Inl UnknownTimeZoneError \<and>
   is_holiday [''US/Eastern'' \<mapsto> [Date (ymd2ord 2022 12 25) \<mapsto> ''Christmas'']]
     (Date (ymd2ord 2022 12 25)) ''Mars/Phobos'' = False"
  using unknown_timezone [of "[''UTC'' \<mapsto> (0::int), ''US/Eastern'' \<mapsto> - 5]" "''UTC''"
      "''Mars/Phobos''" "\<lambda>tz d. Inr (d, tz)"
      "\<lambda>(d, tz) tz'. Inr (d\<lparr>hour := hour d + tz' - tz\<rparr>, tz')" "mk_datetime 2022 12 22 12 0"
      "[''US/Eastern'' \<mapsto> [Date (ymd2ord 2022 12 25) \<mapsto> ''Christmas'']]" "''Mars/Phobos''"
      "Date (ymd2ord 2022 12 25)"]
  by simp

text \<open>
  C7 as stated fails for the holiday lookup: \<^verbatim>\<open>"Mars/Phobos"\<close> is rejected by
  \<^verbatim>\<open>pytz.timezone\<close>, and \<open>is_holiday\<close> with that timezone returns \<open>False\<close>.
\<close>

theorem holiday_lookup_unknown_timezone_counterexample:
  "pytz_timezone [''UTC'' \<mapsto> (0::int), ''US/Eastern'' \<mapsto> - 5] ''Mars/Phobos''
     = Inl UnknownTimeZoneError \<and>
   is_holiday [''US/Eastern'' \<mapsto> [Date (ymd2ord 2022 12 25) \<mapsto> ''Christmas'']]
     (Date (ymd2ord 2022 12 25)) ''Mars/Phobos'' = False"
  by (simp add: pytz_timezone_def is_holiday_def)

section \<open>Malformed holiday files\<close>

text \<open>
  C8, as the code has it.  When the file can be read, \<open>load_holidays\<close> returns a
  calendar if every line after the header loads, and otherwise raises \<^verbatim>\<open>ValueError\<close>
  and returns no calendar.  A line loads exactly when, stripped, it splits into three
  comma-space separated fields and \<^verbatim>\<open>strptime\<close> parses the date field; a date field that
  parses has 6 to 8 characters, all of them digits or spaces.
\<close>

theorem load_holidays_all_or_nothing:
  assumes "files holidays_file = Some all_lines"
  shows "(if list_all line_parses (drop 1 all_lines)
          then \<exists>cal. load_holidays files holidays_file = Inr cal
          else load_holidays files holidays_file = Inl ValueError) \<and>
         (\<forall>line. line_parses line \<longleftrightarrow>
            (\<exists>tz ds label date. split_comma_space [] (strip line) = [tz, ds, label] \<and>
                                strptime_Ymd_date ds = Inr date)) \<and>
         (\<forall>ds date. strptime_Ymd_date ds = Inr date \<longrightarrow>
            6 \<le> length ds \<and> length ds \<le> 8 \<and> list_all date_char ds)"
proof -
  have whole: "if list_all line_parses (drop 1 all_lines)
        then \<exists>cal. load_holidays files holidays_file = Inr cal
        else load_holidays files holidays_file = Inl ValueError"
  proof (cases "list_all line_parses (drop 1 all_lines)")
    case True
    then show ?thesis
      unfolding load_holidays_def assms using load_lines_ok [of "drop 1 all_lines" Map.empty]
      by simp
  next
    case False
    then have "\<And>cal. load_lines (drop 1 all_lines) Map.empty \<noteq> Inr cal"
      using load_lines_ok [of "drop 1 all_lines" Map.empty] by auto
    then obtain e where e: "load_lines (drop 1 all_lines) Map.empty = Inl e"
      by (cases "load_lines (drop 1 all_lines) Map.empty") auto
    from load_lines_error [OF e] e False show ?thesis
      unfolding load_holidays_def assms by simp
  qed
  have fields: "line_parses line \<longleftrightarrow>
          (\<exists>tz ds label date. split_comma_space [] (strip line) = [tz, ds, label] \<and>
                              strptime_Ymd_date ds = Inr date)" for line
    unfolding line_parses_def by (auto split: list.splits sum.splits)
  have shape: "strptime_Ymd_date ds = Inr date \<longrightarrow>
            6 \<le> length ds \<and> length ds \<le> 8 \<and> list_all date_char ds" for ds date
    using strptime_accepts_shape [of ds date] by blast
  from whole fields shape show ?thesis by blast
qed

theorem load_holidays_all_or_nothing_witness:
  "load_holidays
     [''holidays.dat'' \<mapsto> [''Timezone, Date, Holiday'', ''US/Eastern, 20221225, Christmas'',
                           ''US/Eastern, 2022-12-26, Boxing Day'']]
     ''holidays.dat'' = Inl ValueError \<and>
   load_holidays
     [''holidays.dat'' \<mapsto> [''Timezone, Date, Holiday'', ''US/Eastern, 20221225, Christmas'',
                           ''US/Eastern, 20230101'']]
     ''holidays.dat'' = Inl ValueError"
proof -
  have a: "\<not> list_all line_parses (drop 1 [''Timezone, Date, Holiday'',
             ''US/Eastern, 20221225, Christmas'', ''US/Eastern, 2022-12-26, Boxing Day''])"
    by (simp add: line_parses_def parse_defs ymd_defs)
  have b: "\<not> list_all line_parses (drop 1 [''Timezone, Date, Holiday'',
             ''US/Eastern, 20221225, Christmas'', ''US/Eastern, 20230101''])"
    by (simp add: line_parses_def parse_defs ymd_defs)
  show ?thesis
    using load_holidays_all_or_nothing
      [of "[''holidays.dat'' \<mapsto> [''Timezone, Date, Holiday'', ''US/Eastern, 20221225, Christmas'',
                           ''US/Eastern, 2022-12-26, Boxing Day'']]" "''holidays.dat''"
          "[''Timezone, Date, Holiday'', ''US/Eastern, 20221225, Christmas'',
                           ''US/Eastern, 2022-12-26, Boxing Day'']"]
      load_holidays_all_or_nothing
      [of "[''holidays.dat'' \<mapsto> [''Timezone, Date, Holiday'', ''US/Eastern, 20221225, Christmas'',
                           ''US/Eastern, 20230101'']]" "''holidays.dat''"
          "[''Timezone, Date, Holiday'', ''US/Eastern, 20221225, Christmas'',
                           ''US/Eastern, 20230101'']"]
      a b
    by simp
qed

text \<open>
  C8 as stated fails: the seven-digit date field \<^verbatim>\<open>2022125\<close> is not rejected; the file
  loads with the holiday on 2022-12-05.
\<close>

theorem load_holidays_short_date_counterexample:
  "load_holidays
     [''holidays.dat'' \<mapsto> [''Timezone, Date, Holiday'', ''US/Eastern, 2022125, Saint Nicholas Eve'']]
     ''holidays.dat''
   = Inr [''US/Eastern'' \<mapsto> [Date (ymd2ord 2022 12 5) \<mapsto> ''Saint Nicholas Eve'']]"
  by (simp add: load_holidays_def parse_defs ymd_defs)

section \<open>Holiday lookup\<close>

text \<open>
  C6.  For every key \<open>d\<close> (a date or a datetime) and every timezone string \<open>tz\<close>,
  \<open>is_holiday\<close> is true exactly when \<open>tz\<close> is a key of the calendar and \<open>d\<close> is a
  key of the submapping stored under \<open>tz\<close>.  For a timezone that is not a key of the
  calendar the answer is the value \<open>False\<close>; nothing is raised.
\<close>

theorem is_holiday_iff_keys:
  "is_holiday holidays d tz =
     (tz \<in> dom holidays \<and> d \<in> dom (the (holidays tz))) \<and>
   (holidays tz = None \<longrightarrow> is_holiday holidays d tz = False)"
  by (auto simp: is_holiday_def split: option.splits)

theorem is_holiday_iff_keys_witness:
  "is_holiday [''US/Eastern'' \<mapsto> [Date 738514 \<mapsto> ''Christmas'']] (Date 738514) ''US/Eastern''
   \<and> \<not> is_holiday [''US/Eastern'' \<mapsto> [Date 738514 \<mapsto> ''Christmas'']] (Date 738514) ''UTC''"
  using is_holiday_iff_keys
    [of "[''US/Eastern'' \<mapsto> [Date 738514 \<mapsto> ''Christmas'']]" "Date 738514" "''US/Eastern''"]
    is_holiday_iff_keys
    [of "[''US/Eastern'' \<mapsto> [Date 738514 \<mapsto> ''Christmas'']]" "Date 738514" "''UTC''"]
  by simp

section \<open>Datetimes with a timezone\<close>

text \<open>
  A \<^verbatim>\<open>datetime.datetime\<close> also carries a \<^verbatim>\<open>tzinfo\<close>, which is \<^verbatim>\<open>None\<close> for a naive
  value.  The script never reads it, but the library operations it calls do:
  subtraction and comparison of two datetimes, and the hash of a datetime used as a
  dict key.  A \<^verbatim>\<open>tzinfo\<close> object is given by its identity (the library tests
  \<^verbatim>\<open>self._tzinfo is other._tzinfo\<close>) and by its \<^verbatim>\<open>utcoffset\<close> method, which answers a
  \<^verbatim>\<open>timedelta\<close> or \<^verbatim>\<open>None\<close> for the wall-clock fields it is given.
\<close>

record tzinfo =
  tz_id :: nat
  tz_utcoffset :: "datetime \<Rightarrow> timedelta option"

record tz_datetime =
  wall :: datetime
  tz :: "tzinfo option"

text \<open>
  A naive datetime in this representation.
\<close>

definition naive :: "datetime \<Rightarrow> tz_datetime" where
  "naive d = \<lparr>wall = d, tz = None\<rparr>"

text \<open>
  \<^verbatim>\<open>timedelta.__sub__\<close> and the comparison of two timedeltas, which is the tuple
  comparison of their normalised fields.
\<close>

definition timedelta_sub :: "timedelta \<Rightarrow> timedelta \<Rightarrow> error + timedelta" where
  "timedelta_sub a b =
     timedelta_new (days a - days b) (seconds a - seconds b) (microseconds a - microseconds b)"

definition timedelta_cmp :: "timedelta \<Rightarrow> timedelta \<Rightarrow> int" where
  "timedelta_cmp a b =
     cmp_tuple [days a, seconds a, microseconds a] [days b, seconds b, microseconds b]"

text \<open>
  \<^verbatim>\<open>datetime.utcoffset()\<close>: \<^verbatim>\<open>None\<close> without a \<^verbatim>\<open>tzinfo\<close>; otherwise the answer of the
  \<^verbatim>\<open>tzinfo\<close>, checked by \<^verbatim>\<open>_check_utc_offset\<close>, which raises \<^verbatim>\<open>ValueError\<close> unless the
  offset is strictly between minus one day and one day.
\<close>

definition check_utc_offset :: "timedelta option \<Rightarrow> error + timedelta option" where
  "check_utc_offset offset =
     (case offset of
        None \<Rightarrow> Inr None
      | Some off \<Rightarrow>
          (if timedelta_cmp \<lparr>days = - 1, seconds = 0, microseconds = 0\<rparr> off < 0 \<and>
              timedelta_cmp off \<lparr>days = 1, seconds = 0, microseconds = 0\<rparr> < 0
           then Inr (Some off) else Inl ValueError))"

definition utcoffset :: "tz_datetime \<Rightarrow> error + timedelta option" where
  "utcoffset self =
     (case tz self of
        None \<Rightarrow> Inr None
      | Some tzinfo \<Rightarrow> check_utc_offset (tz_utcoffset tzinfo (wall self)))"

text \<open>
  \<^verbatim>\<open>self._tzinfo is other._tzinfo\<close>
\<close>

definition same_tzinfo :: "tz_datetime \<Rightarrow> tz_datetime \<Rightarrow> bool" where
  "same_tzinfo self other =
     (case tz self of
        None \<Rightarrow> (case tz other of None \<Rightarrow> True | Some ottz \<Rightarrow> False)
      | Some mytz \<Rightarrow> (case tz other of None \<Rightarrow> False | Some ottz \<Rightarrow> tz_id mytz = tz_id ottz))"

text \<open>
  \<^verbatim>\<open>datetime.__sub__\<close> with a datetime: the difference of the wall-clock fields when
  the two values have the same \<^verbatim>\<open>tzinfo\<close> object or equal offsets, \<^verbatim>\<open>TypeError\<close> when
  exactly one of the offsets is \<^verbatim>\<open>None\<close>, and \<^verbatim>\<open>base + otoff - myoff\<close> otherwise.
\<close>

definition tz_datetime_diff :: "tz_datetime \<Rightarrow> tz_datetime \<Rightarrow> error + timedelta" where
  "tz_datetime_diff self other =
     (case datetime_diff (wall self) (wall other) of
        Inl e \<Rightarrow> Inl e
      | Inr base \<Rightarrow>
          (if same_tzinfo self other then Inr base
           else (case utcoffset self of
                   Inl e \<Rightarrow> Inl e
                 | Inr myoff \<Rightarrow>
                     (case utcoffset other of
                        Inl e \<Rightarrow> Inl e
                      | Inr otoff \<Rightarrow>
                          (if myoff = otoff then Inr base
                           else (case myoff of
                                   None \<Rightarrow> Inl TypeError
                                 | Some my \<Rightarrow>
                                     (case otoff of
                                        None \<Rightarrow> Inl TypeError
                                      | Some ot \<Rightarrow>
                                          (case timedelta_add base ot of
                                             Inl e \<Rightarrow> Inl e
                                           | Inr shifted \<Rightarrow> timedelta_sub shifted my))))))))"

text \<open>
  \<^verbatim>\<open>datetime._cmp\<close> as the ordering comparisons call it, and \<^verbatim>\<open><=\<close>.
\<close>

definition tz_datetime_cmp :: "tz_datetime \<Rightarrow> tz_datetime \<Rightarrow> error + int" where
  "tz_datetime_cmp self other =
     (if same_tzinfo self other then Inr (datetime_cmp (wall self) (wall other))
      else (case utcoffset self of
              Inl e \<Rightarrow> Inl e
            | Inr myoff \<Rightarrow>
                (case utcoffset other of
                   Inl e \<Rightarrow> Inl e
                 | Inr otoff \<Rightarrow>
                     (if myoff = otoff then Inr (datetime_cmp (wall self) (wall other))
                      else if myoff = None \<or> otoff = None then Inl TypeError
                      else (case tz_datetime_diff self other of
                              Inl e \<Rightarrow> Inl e
                            | Inr diff \<Rightarrow>
                                (if days diff < 0 then Inr (- 1)
                                 else if diff = \<lparr>days = 0, seconds = 0, microseconds = 0\<rparr>
                                      then Inr 0 else Inr 1))))))"

definition tz_datetime_le :: "tz_datetime \<Rightarrow> tz_datetime \<Rightarrow> error + bool" where
  "tz_datetime_le a b =
     (case tz_datetime_cmp a b of Inl e \<Rightarrow> Inl e | Inr c \<Rightarrow> Inr (c \<le> 0))"

text \<open>
  \<^verbatim>\<open>datetime.__add__\<close> and \<^verbatim>\<open>datetime.__sub__\<close> with a timedelta: the result keeps the
  \<^verbatim>\<open>tzinfo\<close> of the datetime.
\<close>

definition tz_datetime_add :: "tz_datetime \<Rightarrow> timedelta \<Rightarrow> error + tz_datetime" where
  "tz_datetime_add self other =
     (case datetime_add (wall self) other of
        Inl e \<Rightarrow> Inl e
      | Inr d \<Rightarrow> Inr (self\<lparr>wall := d\<rparr>))"


text \<open>
  The key under which a datetime is looked up in a dict.  \<^verbatim>\<open>datetime.__hash__\<close> calls
  \<^verbatim>\<open>utcoffset()\<close>; a value with an offset hashes and compares as its UTC instant.
\<close>

definition timedelta_micros :: "timedelta \<Rightarrow> int" where
  "timedelta_micros delta = (days delta * 86400 + seconds delta) * 1000000 + microseconds delta"

definition hash_key :: "tz_datetime \<Rightarrow> error + pykey" where
  "hash_key self =
     (case utcoffset self of
        Inl e \<Rightarrow> Inl e
      | Inr None \<Rightarrow> Inr (DateTime (wall self))
      | Inr (Some off) \<Rightarrow> Inr (Instant (micros (wall self) - timedelta_micros off)))"

section \<open>The operations of the script on datetimes with a timezone\<close>



definition get_days_tz :: "tz_datetime \<Rightarrow> tz_datetime \<Rightarrow> error + int" where
  "get_days_tz from_date to_date =
     (case tz_datetime_diff to_date from_date of
        Inl e \<Rightarrow> Inl e
      | Inr delta \<Rightarrow> Inr (days delta))"

definition next_day_tz :: "tz_datetime \<Rightarrow> error + tz_datetime" where
  "next_day_tz current_date =
     (case timedelta_new 1 0 0 of
        Inl e \<Rightarrow> Inl e
      | Inr one_day \<Rightarrow> tz_datetime_add current_date one_day)"

lemma next_day_tz_wall:
  assumes "next_day_tz cur = Inr nxt"
  shows "next_day (wall cur) = Inr (wall nxt)" and "tz nxt = tz cur"
  using assms unfolding next_day_tz_def next_day_def tz_datetime_add_def
  by (auto split: sum.splits)

function count_weekends_tz_loop ::
  "tz_datetime \<Rightarrow> tz_datetime \<Rightarrow> int \<Rightarrow> error + int" where
  "count_weekends_tz_loop current_date to_date weekends =
     (case tz_datetime_le current_date to_date of
        Inl e \<Rightarrow> Inl e
      | Inr continue \<Rightarrow>
          (if continue
           then (let weekends' =
                       (if weekday (wall current_date) \<ge> 5 then weekends + 1 else weekends)
                 in case next_day_tz current_date of
                      Inl e \<Rightarrow> Inl e
                    | Inr current_date' \<Rightarrow>
                        count_weekends_tz_loop current_date' to_date weekends')
           else Inr weekends))"
  by pat_completeness auto
termination
proof (relation "measure (\<lambda>(current_date, to_date, weekends).
                   nat (MAXORDINAL - norm_day (wall current_date)))")
  show "wf (measure (\<lambda>(current_date, to_date, weekends).
                   nat (MAXORDINAL - norm_day (wall current_date))))" by simp
next
  fix current_date to_date :: tz_datetime and weekends weekends' :: int
    and current_date' :: tz_datetime
  assume "next_day_tz current_date = Inr current_date'"
  from next_day_result(2,3) [OF next_day_tz_wall(1) [OF this]]
  show "((current_date', to_date, weekends'), current_date, to_date, weekends)
        \<in> measure (\<lambda>(current_date, to_date, weekends).
              nat (MAXORDINAL - norm_day (wall current_date)))"
    by simp
qed

definition count_weekends_tz :: "tz_datetime \<Rightarrow> tz_datetime \<Rightarrow> error + int" where
  "count_weekends_tz from_date to_date = count_weekends_tz_loop from_date to_date 0"

definition get_days_exclude_we_tz :: "tz_datetime \<Rightarrow> tz_datetime \<Rightarrow> error + int" where
  "get_days_exclude_we_tz from_date to_date =
     (case tz_datetime_diff to_date from_date of
        Inl e \<Rightarrow> Inl e
      | Inr delta \<Rightarrow>
          (case count_weekends_tz from_date to_date of
             Inl e \<Rightarrow> Inl e
           | Inr weekends \<Rightarrow> Inr (days delta - weekends)))"


text \<open>
  \<^verbatim>\<open>is_holiday\<close>: the membership test \<^verbatim>\<open>date in self.holidays[timezone]\<close> hashes the
  datetime, and is reached only when the timezone is a key of the calendar.  In
  \<^verbatim>\<open>get_business_days\<close> the \<^verbatim>\<open>and\<close> calls it only for Monday to Friday.
\<close>

definition is_holiday_tz :: "calendar \<Rightarrow> tz_datetime \<Rightarrow> string \<Rightarrow> error + bool" where
  "is_holiday_tz holidays date timezone =
     (case holidays timezone of
        None \<Rightarrow> Inr False
      | Some sub \<Rightarrow>
          (case hash_key date of
             Inl e \<Rightarrow> Inl e
           | Inr key \<Rightarrow> Inr (case sub key of None \<Rightarrow> False | Some label \<Rightarrow> True)))"

definition business_day_tz :: "calendar \<Rightarrow> tz_datetime \<Rightarrow> error + bool" where
  "business_day_tz holidays current_date =
     (if weekday (wall current_date) < 5
      then (case is_holiday_tz holidays current_date ''US/Eastern'' of
              Inl e \<Rightarrow> Inl e
            | Inr holiday \<Rightarrow> Inr (\<not> holiday))
      else Inr False)"

function get_business_days_tz_loop ::
  "calendar \<Rightarrow> tz_datetime \<Rightarrow> tz_datetime \<Rightarrow> int \<Rightarrow> error + int" where
  "get_business_days_tz_loop holidays current_date to_date business_days =
     (case tz_datetime_le current_date to_date of
        Inl e \<Rightarrow> Inl e
      | Inr continue \<Rightarrow>
          (if continue
           then (case business_day_tz holidays current_date of
                   Inl e \<Rightarrow> Inl e
                 | Inr counted \<Rightarrow>
                     (let business_days' =
                            (if counted then business_days + 1 else business_days)
                      in case next_day_tz current_date of
                           Inl e \<Rightarrow> Inl e
                         | Inr current_date' \<Rightarrow>
                             get_business_days_tz_loop holidays current_date' to_date
                               business_days'))
           else Inr business_days))"
  by pat_completeness auto
termination
proof (relation "measure (\<lambda>(holidays, current_date, to_date, business_days).
                   nat (MAXORDINAL - norm_day (wall current_date)))")
  show "wf (measure (\<lambda>(holidays, current_date, to_date, business_days).
                   nat (MAXORDINAL - norm_day (wall current_date))))" by simp
next
  fix holidays :: calendar and current_date to_date :: tz_datetime
    and business_days business_days' :: int and current_date' :: tz_datetime
  assume "next_day_tz current_date = Inr current_date'"
  from next_day_result(2,3) [OF next_day_tz_wall(1) [OF this]]
  show "((holidays, current_date', to_date, business_days'),
         holidays, current_date, to_date, business_days)
        \<in> measure (\<lambda>(holidays, current_date, to_date, business_days).
              nat (MAXORDINAL - norm_day (wall current_date)))"
    by simp
qed

definition get_business_days_tz :: "calendar \<Rightarrow> tz_datetime \<Rightarrow> tz_datetime \<Rightarrow> error + int" where
  "get_business_days_tz holidays from_date to_date =
     get_business_days_tz_loop holidays from_date to_date 0"

section \<open>Naive datetimes in the general model\<close>

text \<open>
  On naive datetimes the operations of the previous section are the operations of
  the first part.
\<close>

lemma naive_fields [simp]: "wall (naive d) = d" "tz (naive d) = None"
  unfolding naive_def by simp_all

lemma utcoffset_naive: "utcoffset (naive d) = Inr None"
  unfolding utcoffset_def by simp

lemma same_tzinfo_naive: "same_tzinfo (naive a) (naive b)"
  unfolding same_tzinfo_def by simp


lemma tz_datetime_le_naive: "tz_datetime_le (naive a) (naive b) = Inr (datetime_le a b)"
  unfolding tz_datetime_le_def tz_datetime_cmp_def datetime_le_def
  by (simp add: same_tzinfo_naive)

lemma next_day_tz_naive:
  "next_day_tz (naive d) = (case next_day d of Inl e \<Rightarrow> Inl e | Inr d' \<Rightarrow> Inr (naive d'))"
  unfolding next_day_tz_def next_day_def tz_datetime_add_def naive_def
  by (simp split: sum.splits)








lemma hash_key_naive: "hash_key (naive d) = Inr (DateTime d)"
  unfolding hash_key_def utcoffset_naive by simp

lemma business_day_tz_naive:
  "business_day_tz holidays (naive d) =
     Inr (weekday d < 5 \<and> \<not> is_holiday holidays (DateTime d) ''US/Eastern'')"
  unfolding business_day_tz_def is_holiday_tz_def is_holiday_def hash_key_naive
  by (simp split: option.splits)

lemma get_business_days_tz_loop_naive:
  "get_business_days_tz_loop holidays (naive c) (naive t) w = get_business_days_loop holidays c t w"
proof (induction holidays c t w rule: get_business_days_loop.induct)
  case (1 holidays c t w)
  define w' where "w' = (if weekday c < 5 \<and> \<not> is_holiday holidays (DateTime c) ''US/Eastern''
                         then w + 1 else w)"
  show ?case
  proof (cases "datetime_le c t")
    case False
    have "get_business_days_tz_loop holidays (naive c) (naive t) w = Inr w"
      using False by (subst get_business_days_tz_loop.simps) (simp add: tz_datetime_le_naive)
    moreover have "get_business_days_loop holidays c t w = Inr w"
      using False by (subst get_business_days_loop.simps) simp
    ultimately show ?thesis by simp
  next
    case True
    show ?thesis
    proof (cases "next_day c")
      case (Inl e)
      have "get_business_days_tz_loop holidays (naive c) (naive t) w = Inl e"
        using True Inl
        by (subst get_business_days_tz_loop.simps)
           (simp add: tz_datetime_le_naive next_day_tz_naive business_day_tz_naive Let_def)
      moreover have "get_business_days_loop holidays c t w = Inl e"
        using True Inl by (subst get_business_days_loop.simps) (simp add: Let_def)
      ultimately show ?thesis by simp
    next
      case (Inr c')
      have L: "get_business_days_tz_loop holidays (naive c) (naive t) w =
               get_business_days_tz_loop holidays (naive c') (naive t) w'"
        using True Inr unfolding w'_def
        by (subst get_business_days_tz_loop.simps)
           (simp add: tz_datetime_le_naive next_day_tz_naive business_day_tz_naive Let_def
              del: get_business_days_tz_loop.simps)
      have R: "get_business_days_loop holidays c t w = get_business_days_loop holidays c' t w'"
        using True Inr unfolding w'_def
        by (subst get_business_days_loop.simps)
           (simp add: Let_def del: get_business_days_loop.simps)
      from "1.IH" [OF True refl Inr] show ?thesis unfolding L R w'_def .
    qed
  qed
qed

lemma get_business_days_tz_naive:
  "get_business_days_tz holidays (naive a) (naive b) = get_business_days holidays a b"
  unfolding get_business_days_tz_def get_business_days_def
  by (rule get_business_days_tz_loop_naive)

section \<open>Durations in microseconds\<close>

text \<open>
  A \<^verbatim>\<open>timedelta\<close> is determined by its length in microseconds; the constructor, the sum
  and the difference are computed on that length.
\<close>

definition timedelta_of_micros :: "int \<Rightarrow> error + timedelta" where
  "timedelta_of_micros t =
     (if \<bar>t div 86400000000\<bar> > 999999999 then Inl OverflowError
      else Inr \<lparr>days = t div 86400000000, seconds = t div 1000000 mod 86400,
                microseconds = t mod 1000000\<rparr>)"

lemma timedelta_new_micros:
  "timedelta_new d s us = timedelta_of_micros ((d * 86400 + s) * 1000000 + us)"
proof -
  define t where "t = (d * 86400 + s) * 1000000 + us"
  have a: "d + (s + us div 1000000) div 86400 = t div 86400000000"
    unfolding t_def by (rule floor_days)
  have "t div 1000000 = (d * 86400 + s) + us div 1000000"
    unfolding t_def by simp
  then have b: "(s + us div 1000000) mod 86400 = t div 1000000 mod 86400"
    by (simp add: add.assoc)
  have c: "us mod 1000000 = t mod 1000000"
    unfolding t_def by (rule mod_mult_self3 [symmetric])
  show ?thesis
    unfolding timedelta_new_eq timedelta_of_micros_def t_def [symmetric] a b c ..
qed

lemma split_micros:
  fixes t :: int
  shows "t = (t div 86400000000) * 86400000000 + (t div 1000000 mod 86400) * 1000000
             + t mod 1000000"
proof -
  define q where "q = t div 1000000"
  define r where "r = t mod 1000000"
  have t: "t = q * 1000000 + r" unfolding q_def r_def by simp
  have "t div 86400000000 = t div (1000000 * 86400)" by simp
  also have "\<dots> = q div 86400" unfolding q_def by (rule zdiv_zmult2_eq) simp
  finally have d: "t div 86400000000 = q div 86400" .
  define q2 where "q2 = q div 86400"
  define r2 where "r2 = q mod 86400"
  have q: "q = q2 * 86400 + r2" unfolding q2_def r2_def by simp
  show ?thesis
    unfolding d q_def [symmetric] r_def [symmetric] q2_def [symmetric] r2_def [symmetric]
    unfolding t q by simp
qed

lemma micros_of_timedelta:
  assumes "timedelta_of_micros t = Inr delta"
  shows "timedelta_micros delta = t" and "days delta = t div 86400000000"
    and "0 \<le> seconds delta" "seconds delta < 86400"
    and "0 \<le> microseconds delta" "microseconds delta < 1000000"
proof -
  from assms have "delta = \<lparr>days = t div 86400000000, seconds = t div 1000000 mod 86400,
                microseconds = t mod 1000000\<rparr>"
    unfolding timedelta_of_micros_def
    by (cases "\<bar>t div 86400000000\<bar> > 999999999") simp_all
  then have f: "days delta = t div 86400000000"
      "seconds delta = t div 1000000 mod 86400" "microseconds delta = t mod 1000000"
    by simp_all
  show "days delta = t div 86400000000" by (rule f(1))
  show "timedelta_micros delta = t"
    unfolding timedelta_micros_def f using split_micros [of t] by (simp add: algebra_simps)
  show "0 \<le> seconds delta" "seconds delta < 86400"
    "0 \<le> microseconds delta" "microseconds delta < 1000000"
    unfolding f by simp_all
qed

lemma timedelta_of_micros_bounded:
  assumes "- 999999999 * 86400000000 \<le> t" "t < 999999999 * 86400000000"
  shows "\<exists>delta. timedelta_of_micros t = Inr delta"
proof -
  from quotient_bounds [of "- 999999999" t 999999999] assms
  have "\<not> \<bar>t div 86400000000\<bar> > 999999999" by simp
  then show ?thesis unfolding timedelta_of_micros_def by simp
qed

lemma timedelta_add_micros:
  "timedelta_add a b = timedelta_of_micros (timedelta_micros a + timedelta_micros b)"
proof -
  have "((days a + days b) * 86400 + (seconds a + seconds b)) * 1000000
          + (microseconds a + microseconds b) = timedelta_micros a + timedelta_micros b"
    unfolding timedelta_micros_def by (simp add: algebra_simps)
  then show ?thesis unfolding timedelta_add_def timedelta_new_micros by simp
qed

lemma timedelta_sub_micros:
  "timedelta_sub a b = timedelta_of_micros (timedelta_micros a - timedelta_micros b)"
proof -
  have "((days a - days b) * 86400 + (seconds a - seconds b)) * 1000000
          + (microseconds a - microseconds b) = timedelta_micros a - timedelta_micros b"
    unfolding timedelta_micros_def by (simp add: algebra_simps)
  then show ?thesis unfolding timedelta_sub_def timedelta_new_micros by simp
qed

lemma datetime_diff_micros:
  "datetime_diff b a = timedelta_of_micros (micros b - micros a)"
proof -
  have "((ordinal b - ordinal a) * 86400 + (day_seconds b - day_seconds a)) * 1000000
            + (microsecond b - microsecond a) = micros b - micros a"
    unfolding micros_def by (simp add: algebra_simps)
  then show ?thesis
    unfolding datetime_diff_def Let_def timedelta_new_micros day_seconds_def [symmetric]
    by simp
qed

section \<open>Valid datetimes and elapsed time\<close>

text \<open>
  The offsets \<^verbatim>\<open>_check_utc_offset\<close> accepts, as normalised timedeltas; a datetime is
  valid when its fields are in range and its offset, if it has one, is accepted.
\<close>

definition valid_offset :: "timedelta \<Rightarrow> bool" where
  "valid_offset off =
     (0 \<le> seconds off \<and> seconds off < 86400 \<and>
      0 \<le> microseconds off \<and> microseconds off < 1000000 \<and>
      (days off = 0 \<or> (days off = - 1 \<and> 0 < seconds off * 1000000 + microseconds off)))"

definition raw_offset :: "tz_datetime \<Rightarrow> timedelta option" where
  "raw_offset x = (case tz x of None \<Rightarrow> None | Some tzinfo \<Rightarrow> tz_utcoffset tzinfo (wall x))"

definition valid_tz_datetime :: "tz_datetime \<Rightarrow> bool" where
  "valid_tz_datetime x =
     (valid_datetime (wall x) \<and>
      (case raw_offset x of None \<Rightarrow> True | Some off \<Rightarrow> valid_offset off))"

lemma check_valid_offset:
  assumes "valid_offset off"
  shows "check_utc_offset (Some off) = Inr (Some off)"
  using assms unfolding check_utc_offset_def valid_offset_def timedelta_cmp_def
  by auto

lemma utcoffset_raw:
  "utcoffset x = check_utc_offset (raw_offset x)"
  unfolding utcoffset_def raw_offset_def check_utc_offset_def
  by (cases "tz x") simp_all

lemma utcoffset_valid:
  assumes "valid_tz_datetime x"
  shows "utcoffset x = Inr (raw_offset x)"
proof (cases "raw_offset x")
  case None
  then show ?thesis unfolding utcoffset_raw check_utc_offset_def by simp
next
  case (Some off)
  with assms have "valid_offset off" unfolding valid_tz_datetime_def by simp
  from check_valid_offset [OF this] Some show ?thesis
    unfolding utcoffset_raw by simp
qed

lemma valid_offset_micros:
  assumes "valid_offset off"
  shows "- 86400000000 < timedelta_micros off" and "timedelta_micros off < 86400000000"
proof -
  define r where "r = seconds off * 1000000 + microseconds off"
  have r: "0 \<le> r" "r < 86400000000"
    using assms unfolding valid_offset_def r_def by linarith+
  have m: "timedelta_micros off = days off * 86400000000 + r"
    unfolding timedelta_micros_def r_def by (simp add: algebra_simps)
  have d: "days off = 0 \<or> (days off = - 1 \<and> 0 < r)"
    using assms unfolding valid_offset_def r_def by simp
  show "- 86400000000 < timedelta_micros off" unfolding m using d r by auto
  show "timedelta_micros off < 86400000000" unfolding m using d r by auto
qed

text \<open>
  The duration the library computes for \<open>x - y\<close>, in microseconds: the difference
  of the wall-clock fields, or of the UTC instants when the two values have
  different \<^verbatim>\<open>tzinfo\<close> objects and different offsets.  The subtraction and the
  comparison are defined unless exactly one of the two values has an offset.
\<close>

definition elapsed :: "tz_datetime \<Rightarrow> tz_datetime \<Rightarrow> int" where
  "elapsed x y =
     (if same_tzinfo x y \<or> raw_offset x = raw_offset y
      then micros (wall x) - micros (wall y)
      else (micros (wall x) - (case raw_offset x of None \<Rightarrow> 0 | Some off \<Rightarrow> timedelta_micros off))
         - (micros (wall y) - (case raw_offset y of None \<Rightarrow> 0 | Some off \<Rightarrow> timedelta_micros off)))"

definition subtractable :: "tz_datetime \<Rightarrow> tz_datetime \<Rightarrow> bool" where
  "subtractable x y =
     (same_tzinfo x y \<or> raw_offset x = raw_offset y \<or>
      (raw_offset x \<noteq> None \<and> raw_offset y \<noteq> None))"

lemma same_tzinfo_sym: "same_tzinfo x y = same_tzinfo y x"
  unfolding same_tzinfo_def by (auto split: option.splits)

lemma subtractable_sym: "subtractable x y = subtractable y x"
  unfolding subtractable_def using same_tzinfo_sym [of x y] by auto


lemma elapsed_bounds:
  assumes "valid_tz_datetime x" "valid_tz_datetime y"
  shows "- 3652062 * 86400000000 \<le> elapsed x y" and "elapsed x y < 3652062 * 86400000000"
proof -
  have vx: "valid_datetime (wall x)" and vy: "valid_datetime (wall y)"
    using assms unfolding valid_tz_datetime_def by simp_all
  note mx = micros_bounds [OF vx] and my = micros_bounds [OF vy]
  define ox where "ox = (case raw_offset x of None \<Rightarrow> 0 | Some off \<Rightarrow> timedelta_micros off)"
  define oy where "oy = (case raw_offset y of None \<Rightarrow> 0 | Some off \<Rightarrow> timedelta_micros off)"
  have ox: "- 86400000000 < ox" "ox < 86400000000"
    using assms(1) valid_offset_micros unfolding ox_def valid_tz_datetime_def
    by (auto split: option.splits)
  have oy: "- 86400000000 < oy" "oy < 86400000000"
    using assms(2) valid_offset_micros unfolding oy_def valid_tz_datetime_def
    by (auto split: option.splits)
  have e: "elapsed x y = micros (wall x) - micros (wall y) \<or>
           elapsed x y = (micros (wall x) - ox) - (micros (wall y) - oy)"
    unfolding elapsed_def ox_def oy_def by simp
  show "- 3652062 * 86400000000 \<le> elapsed x y" using e mx my ox oy by linarith
  show "elapsed x y < 3652062 * 86400000000" using e mx my ox oy by linarith
qed

lemma tz_datetime_diff_valid:
  assumes "valid_tz_datetime x" "valid_tz_datetime y"
  shows "tz_datetime_diff x y =
           (if subtractable x y then timedelta_of_micros (elapsed x y) else Inl TypeError)"
proof -
  have vx: "valid_datetime (wall x)" and vy: "valid_datetime (wall y)"
    using assms unfolding valid_tz_datetime_def by simp_all
  note mx = micros_bounds [OF vx] and my = micros_bounds [OF vy]
  have "- 999999999 * 86400000000 \<le> micros (wall x) - micros (wall y)"
    "micros (wall x) - micros (wall y) < 999999999 * 86400000000"
    using mx my by linarith+
  from timedelta_of_micros_bounded [OF this] obtain base where
    base: "timedelta_of_micros (micros (wall x) - micros (wall y)) = Inr base" by blast
  note b = micros_of_timedelta(1) [OF base]
  have diff: "datetime_diff (wall x) (wall y) = Inr base"
    unfolding datetime_diff_micros base ..
  show ?thesis
  proof (cases "same_tzinfo x y \<or> raw_offset x = raw_offset y")
    case True
    then have e: "elapsed x y = micros (wall x) - micros (wall y)"
      unfolding elapsed_def by simp
    from True have s: "subtractable x y" unfolding subtractable_def by blast
    from True show ?thesis
      unfolding tz_datetime_diff_def diff utcoffset_valid [OF assms(1)]
        utcoffset_valid [OF assms(2)] e base if_P [OF s]
      by auto
  next
    case False
    then have ns: "\<not> same_tzinfo x y" and ne: "raw_offset x \<noteq> raw_offset y" by simp_all
    show ?thesis
    proof (cases "raw_offset x \<noteq> None \<and> raw_offset y \<noteq> None")
      case False
      with ns ne have s: "\<not> subtractable x y" unfolding subtractable_def by simp
      from False ns ne show ?thesis
        unfolding tz_datetime_diff_def diff utcoffset_valid [OF assms(1)]
          utcoffset_valid [OF assms(2)] if_not_P [OF s]
        by (auto split: option.splits)
    next
      case True
      then obtain my ot where o: "raw_offset x = Some my" "raw_offset y = Some ot" by auto
      from True have s: "subtractable x y" unfolding subtractable_def by simp
      have vo: "valid_offset my" "valid_offset ot"
        using assms o unfolding valid_tz_datetime_def by simp_all
      note bm = valid_offset_micros [OF vo(1)] and bo = valid_offset_micros [OF vo(2)]
      have e: "elapsed x y = (timedelta_micros base + timedelta_micros ot) - timedelta_micros my"
        unfolding elapsed_def b using ns ne o by simp
      have "- 999999999 * 86400000000 \<le> timedelta_micros base + timedelta_micros ot"
        "timedelta_micros base + timedelta_micros ot < 999999999 * 86400000000"
        unfolding b using mx my bo by linarith+
      from timedelta_of_micros_bounded [OF this] obtain shifted where
        sh: "timedelta_of_micros (timedelta_micros base + timedelta_micros ot) = Inr shifted"
        by blast
      note bs = micros_of_timedelta(1) [OF sh]
      have add: "timedelta_add base ot = Inr shifted"
        unfolding timedelta_add_micros sh ..
      have sub: "timedelta_sub shifted my = timedelta_of_micros (elapsed x y)"
        unfolding timedelta_sub_micros bs e ..
      from ns ne show ?thesis
        unfolding tz_datetime_diff_def diff utcoffset_valid [OF assms(1)]
          utcoffset_valid [OF assms(2)] if_P [OF s] o
        by (simp add: add sub)
    qed
  qed
qed


lemma elapsed_result:
  assumes "valid_tz_datetime x" "valid_tz_datetime y"
  shows "\<exists>delta. timedelta_of_micros (elapsed x y) = Inr delta"
proof -
  note b = elapsed_bounds [OF assms]
  have "- 999999999 * 86400000000 \<le> elapsed x y" "elapsed x y < 999999999 * 86400000000"
    using b by linarith+
  from timedelta_of_micros_bounded [OF this] show ?thesis .
qed

lemma get_days_tz_valid:
  assumes "valid_tz_datetime x" "valid_tz_datetime y"
  shows "get_days_tz x y =
           (if subtractable y x then Inr (elapsed y x div 86400000000) else Inl TypeError)"
proof -
  from elapsed_result [OF assms(2,1)] obtain delta where
    d: "timedelta_of_micros (elapsed y x) = Inr delta" by blast
  show ?thesis
    unfolding get_days_tz_def tz_datetime_diff_valid [OF assms(2,1)] d
    using micros_of_timedelta(2) [OF d] by simp
qed


lemma tz_datetime_cmp_mixed:
  assumes "valid_tz_datetime x" "valid_tz_datetime y" "\<not> subtractable x y"
  shows "tz_datetime_cmp x y = Inl TypeError"
proof -
  from assms(3) have ns: "\<not> same_tzinfo x y" and ne: "raw_offset x \<noteq> raw_offset y"
    and n: "raw_offset x = None \<or> raw_offset y = None"
    unfolding subtractable_def by auto
  show ?thesis
    unfolding tz_datetime_cmp_def utcoffset_valid [OF assms(1)] utcoffset_valid [OF assms(2)]
    using ns ne n by auto
qed

lemma tz_datetime_le_mixed:
  assumes "valid_tz_datetime x" "valid_tz_datetime y" "\<not> subtractable x y"
  shows "tz_datetime_le x y = Inl TypeError"
  unfolding tz_datetime_le_def tz_datetime_cmp_mixed [OF assms] by simp

lemma loops_mixed:
  assumes "valid_tz_datetime x" "valid_tz_datetime y" "\<not> subtractable x y"
  shows "count_weekends_tz x y = Inl TypeError"
    and "get_business_days_tz holidays x y = Inl TypeError"
    and "get_days_exclude_we_tz x y = Inl TypeError"
    and "get_days_tz x y = Inl TypeError"
proof -
  show "count_weekends_tz x y = Inl TypeError"
    unfolding count_weekends_tz_def
    by (subst count_weekends_tz_loop.simps) (simp add: tz_datetime_le_mixed [OF assms])
  show "get_business_days_tz holidays x y = Inl TypeError"
    unfolding get_business_days_tz_def
    by (subst get_business_days_tz_loop.simps) (simp add: tz_datetime_le_mixed [OF assms])
  have s: "\<not> subtractable y x" using assms(3) subtractable_sym [of x y] by simp
  show "get_days_tz x y = Inl TypeError"
    unfolding get_days_tz_valid [OF assms(1,2)] using s by simp
  show "get_days_exclude_we_tz x y = Inl TypeError"
    unfolding get_days_exclude_we_tz_def tz_datetime_diff_valid [OF assms(2,1)]
    using s by simp
qed

lemma valid_naive: "valid_tz_datetime (naive d) = valid_datetime d"
  unfolding valid_tz_datetime_def raw_offset_def by simp

lemma aware_not_subtractable:
  assumes "raw_offset x \<noteq> None"
  shows "\<not> subtractable x (naive d)" and "\<not> subtractable (naive d) x"
proof -
  have r: "raw_offset (naive d) = None" unfolding raw_offset_def by simp
  from assms have t: "tz x \<noteq> None" unfolding raw_offset_def by (auto split: option.splits)
  then have ns: "\<not> same_tzinfo x (naive d)" unfolding same_tzinfo_def by (auto split: option.splits)
  show "\<not> subtractable x (naive d)" unfolding subtractable_def r using assms ns by simp
  then show "\<not> subtractable (naive d) x" using subtractable_sym [of x "naive d"] by simp
qed


text \<open>
  A \<^verbatim>\<open>tzinfo\<close> is well behaved when it answers an accepted offset for every datetime,
  as the timezones of a timezone database do.
\<close>

definition well_behaved :: "tzinfo \<Rightarrow> bool" where
  "well_behaved tzinfo = (\<forall>d. \<exists>off. tz_utcoffset tzinfo d = Some off \<and> valid_offset off)"

lemma well_behaved_valid:
  assumes "tz x = Some tzinfo" "well_behaved tzinfo" "valid_datetime (wall x)"
  shows "valid_tz_datetime x" and "raw_offset x \<noteq> None"
proof -
  from assms(2) obtain off where o: "tz_utcoffset tzinfo (wall x) = Some off" "valid_offset off"
    unfolding well_behaved_def by blast
  then have r: "raw_offset x = Some off" unfolding raw_offset_def assms(1) by simp
  show "raw_offset x \<noteq> None" unfolding r by simp
  show "valid_tz_datetime x" unfolding valid_tz_datetime_def r using assms(3) o(2) by simp
qed





lemma hash_key_valid:
  assumes "valid_tz_datetime x"
  shows "\<exists>key. hash_key x = Inr key \<and> (\<forall>n. key \<noteq> Date n)"
  unfolding hash_key_def utcoffset_valid [OF assms] by (cases "raw_offset x") simp_all




text \<open>
  A datetime is well formed when its fields are in range and its \<^verbatim>\<open>tzinfo\<close>, if any,
  is well behaved; adding a day keeps it well formed.
\<close>

definition well_formed :: "tz_datetime \<Rightarrow> bool" where
  "well_formed x =
     (valid_datetime (wall x) \<and>
      (case tz x of None \<Rightarrow> True | Some tzinfo \<Rightarrow> well_behaved tzinfo))"

lemma well_formed_valid:
  assumes "well_formed x"
  shows "valid_tz_datetime x"
proof (cases "tz x")
  case None
  then have "raw_offset x = None" unfolding raw_offset_def by simp
  with assms show ?thesis unfolding valid_tz_datetime_def well_formed_def by simp
next
  case (Some tzinfo)
  with assms have "well_behaved tzinfo" "valid_datetime (wall x)"
    unfolding well_formed_def by simp_all
  from well_behaved_valid(1) [OF Some this] show ?thesis .
qed

lemma well_formed_next:
  assumes "well_formed x" "next_day_tz x = Inr x'"
  shows "well_formed x'"
  using assms(1) next_day_result(1) [OF next_day_tz_wall(1) [OF assms(2)]]
    next_day_tz_wall(2) [OF assms(2)]
  unfolding well_formed_def by simp

text \<open>
  Two timezones for the examples: UTC, and US Eastern standard time, five hours
  behind, whose offset is the normalised timedelta of minus one day plus 68400
  seconds.
\<close>

definition fixed_offset :: "nat \<Rightarrow> timedelta \<Rightarrow> tzinfo" where
  "fixed_offset ident off = \<lparr>tz_id = ident, tz_utcoffset = (\<lambda>d. Some off)\<rparr>"

definition UTC :: tzinfo where
  "UTC = fixed_offset 0 \<lparr>days = 0, seconds = 0, microseconds = 0\<rparr>"

definition EST :: tzinfo where
  "EST = fixed_offset 1 \<lparr>days = - 1, seconds = 68400, microseconds = 0\<rparr>"

definition aware :: "datetime \<Rightarrow> tzinfo \<Rightarrow> tz_datetime" where
  "aware d tzinfo = \<lparr>wall = d, tz = Some tzinfo\<rparr>"

lemma well_behaved_examples: "well_behaved UTC" "well_behaved EST"
  unfolding well_behaved_def UTC_def EST_def fixed_offset_def valid_offset_def by simp_all

lemma aware_fields [simp]: "wall (aware d t) = d" "tz (aware d t) = Some t"
  unfolding aware_def by simp_all

lemma aware_valid:
  assumes "well_behaved t" "valid_datetime d"
  shows "valid_tz_datetime (aware d t)" "raw_offset (aware d t) \<noteq> None"
  using well_behaved_valid [of "aware d t" t] assms by simp_all



lemma well_formed_examples:
  "valid_datetime d \<Longrightarrow> well_formed (naive d)"
  "valid_datetime d \<Longrightarrow> well_behaved t \<Longrightarrow> well_formed (aware d t)"
  unfolding well_formed_def by simp_all

section \<open>Antisymmetry of the day difference\<close>




section \<open>Which operations return\<close>




section \<open>Business days\<close>


text \<open>
  The loop reads the calendar only through the holiday test of the visited value,
  and that test reads only the entry of \<^verbatim>\<open>"US/Eastern"\<close>.
\<close>

lemma get_business_days_tz_loop_cong:
  "(\<And>d. P d \<Longrightarrow> business_day_tz other d = business_day_tz holidays d) \<Longrightarrow>
   (\<And>d d'. P d \<Longrightarrow> next_day_tz d = Inr d' \<Longrightarrow> P d') \<Longrightarrow> P cur \<Longrightarrow>
   get_business_days_tz_loop other cur to_date w =
   get_business_days_tz_loop holidays cur to_date w"
proof (induction holidays cur to_date w rule: get_business_days_tz_loop.induct)
  case (1 holidays cur to_date w)
  note b = "1.prems"(1) [OF "1.prems"(3)]
  show ?case
  proof (cases "tz_datetime_le cur to_date")
    case (Inl e)
    have "get_business_days_tz_loop other cur to_date w = Inl e"
      by (subst get_business_days_tz_loop.simps) (simp add: Inl)
    moreover have "get_business_days_tz_loop holidays cur to_date w = Inl e"
      by (subst get_business_days_tz_loop.simps) (simp add: Inl)
    ultimately show ?thesis by simp
  next
    case le: (Inr continue)
    show ?thesis
    proof (cases continue)
      case False
      have "get_business_days_tz_loop other cur to_date w = Inr w"
        using False by (subst get_business_days_tz_loop.simps) (simp add: le)
      moreover have "get_business_days_tz_loop holidays cur to_date w = Inr w"
        using False by (subst get_business_days_tz_loop.simps) (simp add: le)
      ultimately show ?thesis by simp
    next
      case True
      show ?thesis
      proof (cases "business_day_tz holidays cur")
        case (Inl e)
        have "get_business_days_tz_loop other cur to_date w = Inl e"
          using True by (subst get_business_days_tz_loop.simps) (simp add: le b Inl)
        moreover have "get_business_days_tz_loop holidays cur to_date w = Inl e"
          using True by (subst get_business_days_tz_loop.simps) (simp add: le Inl)
        ultimately show ?thesis by simp
      next
        case bd: (Inr counted)
        define w' where "w' = (if counted then w + 1 else w)"
        show ?thesis
        proof (cases "next_day_tz cur")
          case (Inl e)
          have "get_business_days_tz_loop other cur to_date w = Inl e"
            using True
            by (subst get_business_days_tz_loop.simps) (simp add: le b bd Inl Let_def)
          moreover have "get_business_days_tz_loop holidays cur to_date w = Inl e"
            using True
            by (subst get_business_days_tz_loop.simps) (simp add: le bd Inl Let_def)
          ultimately show ?thesis by simp
        next
          case (Inr cur')
          have L: "get_business_days_tz_loop other cur to_date w =
                   get_business_days_tz_loop other cur' to_date w'"
            using True unfolding w'_def
            by (subst get_business_days_tz_loop.simps)
               (simp add: le b bd Inr Let_def del: get_business_days_tz_loop.simps)
          have R: "get_business_days_tz_loop holidays cur to_date w =
                   get_business_days_tz_loop holidays cur' to_date w'"
            using True unfolding w'_def
            by (subst get_business_days_tz_loop.simps)
               (simp add: le bd Inr Let_def del: get_business_days_tz_loop.simps)
          note p' = "1.prems"(2) [OF "1.prems"(3) Inr]
          from "1.IH" [OF le True bd refl Inr "1.prems"(1,2) p']
          show ?thesis unfolding L R w'_def .
        qed
      qed
    qed
  qed
qed







section \<open>Holidays are never excluded\<close>

text \<open>
  Every key of a calendar built by \<open>load_holidays\<close> is a date (\<open>load_holidays_only_dates\<close>),
  and the key of a datetime is never a date, so the lookup of a valid datetime in a
  loaded calendar answers \<^verbatim>\<open>False\<close>, and the loop counts as it does with the empty
  calendar.
\<close>

lemma is_holiday_tz_loaded:
  assumes "load_holidays files holidays_file = Inr holidays" "valid_tz_datetime x"
  shows "is_holiday_tz holidays x zone = Inr False"
proof -
  from hash_key_valid [OF assms(2)] obtain key where
    k: "hash_key x = Inr key" "\<forall>n. key \<noteq> Date n" by blast
  from load_holidays_only_dates [OF assms(1) k(2), of zone] show ?thesis
    unfolding is_holiday_tz_def is_holiday_def k(1) by (auto split: option.splits)
qed

lemma business_day_tz_loaded:
  assumes "load_holidays files holidays_file = Inr holidays" "well_formed x"
  shows "business_day_tz Map.empty x = business_day_tz holidays x"
proof -
  have "is_holiday_tz Map.empty x ''US/Eastern'' = Inr False"
    unfolding is_holiday_tz_def by simp
  then show ?thesis
    unfolding business_day_tz_def
      is_holiday_tz_loaded [OF assms(1) well_formed_valid [OF assms(2)]]
    by simp
qed

lemma get_business_days_tz_loaded:
  assumes "load_holidays files holidays_file = Inr holidays" "well_formed x"
  shows "get_business_days_tz Map.empty x y = get_business_days_tz holidays x y"
  unfolding get_business_days_tz_def
proof (rule get_business_days_tz_loop_cong [where P = well_formed])
  show "business_day_tz Map.empty d = business_day_tz holidays d" if "well_formed d" for d
    by (rule business_day_tz_loaded [OF assms(1) that])
  show "well_formed d'" if "well_formed d" "next_day_tz d = Inr d'" for d d'
    by (rule well_formed_next [OF that])
  show "well_formed x" by (rule assms(2))
qed

text \<open>
  C10, as the code has it.  For a calendar built by \<open>load_holidays\<close>, no lookup with
  a datetime finds a holiday, in any timezone, whether the datetime is naive or has
  a timezone.  So \<open>get_business_days\<close> never excludes a holiday: for all endpoints
  \<open>x\<close> and \<open>y\<close> with \<open>x\<close> well formed it does what it does with the empty calendar,
  and for naive endpoints it returns the plain count of the visited days that are
  Monday to Friday, unless the range is not empty and its last visited day is
  9999-12-31, where it raises \<^verbatim>\<open>OverflowError\<close>.
\<close>

theorem get_business_days_ignores_holidays:
  assumes "load_holidays files holidays_file = Inr holidays"
    and "valid_datetime from_date" "valid_datetime to_date" "well_formed x"
  shows "(\<forall>d zone. is_holiday holidays (DateTime d) zone = False) \<and>
         (\<forall>t zone. is_holiday holidays (Instant t) zone = False) \<and>
         is_holiday_tz holidays x zone = Inr False \<and>
         get_business_days holidays from_date to_date =
           (if last_day from_date to_date < ordinal from_date then Inr 0
            else if last_day from_date to_date = MAXORDINAL then Inl OverflowError
            else Inr (count_days (\<lambda>d. weekday d < 5) from_date (ordinal from_date)
                        (last_day from_date to_date))) \<and>
         get_business_days_tz holidays (naive from_date) (naive to_date) =
           get_business_days holidays from_date to_date \<and>
         get_business_days_tz holidays x y = get_business_days_tz Map.empty x y"
proof -
  have n: "is_holiday holidays (DateTime d) zone = False" for d zone
    using load_holidays_only_dates [OF assms(1), of "DateTime d" zone] by simp
  have i: "is_holiday holidays (Instant t) zone = False" for t zone
    using load_holidays_only_dates [OF assms(1), of "Instant t" zone] by simp
  note h = is_holiday_tz_loaded [OF assms(1) well_formed_valid [OF assms(4)], of zone]
  have g: "get_business_days holidays from_date to_date =
           (if last_day from_date to_date < ordinal from_date then Inr 0
            else if last_day from_date to_date = MAXORDINAL then Inl OverflowError
            else Inr (count_days (\<lambda>d. weekday d < 5) from_date (ordinal from_date)
                        (last_day from_date to_date)))"
    unfolding get_business_days_valid [OF assms(2,3)] using n by simp
  note t = get_business_days_tz_naive [of holidays from_date to_date]
  note e = get_business_days_tz_loaded [OF assms(1,4), of y, symmetric]
  from n i h g t e show ?thesis by blast
qed

theorem get_business_days_ignores_holidays_witness:
  "load_holidays
     [''holidays.dat'' \<mapsto> [''Timezone, Date, Holiday'',
                           ''US/Eastern, 20221226, Christmas Day (observed)'',
                           ''US/Eastern, 20230102, New Year (observed)'']]
     ''holidays.dat''
   = Inr [''US/Eastern'' \<mapsto> [Date (ymd2ord 2022 12 26) \<mapsto> ''Christmas Day (observed)'',
                             Date (ymd2ord 2023 1 2) \<mapsto> ''New Year (observed)'']] \<and>
   is_holiday [''US/Eastern'' \<mapsto> [Date (ymd2ord 2022 12 26) \<mapsto> ''Christmas Day (observed)'',
                                  Date (ymd2ord 2023 1 2) \<mapsto> ''New Year (observed)'']]
     (Date (ymd2ord 2022 12 26)) ''US/Eastern'' \<and>
   get_business_days
     [''US/Eastern'' \<mapsto> [Date (ymd2ord 2022 12 26) \<mapsto> ''Christmas Day (observed)'',
                        Date (ymd2ord 2023 1 2) \<mapsto> ''New Year (observed)'']]
     (mk_datetime 2022 12 22 0 0) (mk_datetime 2023 1 2 0 0) = Inr 8 \<and>
   is_holiday_tz
     [''US/Eastern'' \<mapsto> [Date (ymd2ord 2022 12 26) \<mapsto> ''Christmas Day (observed)'',
                        Date (ymd2ord 2023 1 2) \<mapsto> ''New Year (observed)'']]
     (aware (mk_datetime 2022 12 26 0 0) EST) ''US/Eastern'' = Inr False"
proof -
  define cal :: calendar where
    "cal = [''US/Eastern'' \<mapsto> [Date (ymd2ord 2022 12 26) \<mapsto> ''Christmas Day (observed)'',
                               Date (ymd2ord 2023 1 2) \<mapsto> ''New Year (observed)'']]"
  have l: "load_holidays
     [''holidays.dat'' \<mapsto> [''Timezone, Date, Holiday'',
                           ''US/Eastern, 20221226, Christmas Day (observed)'',
                           ''US/Eastern, 20230102, New Year (observed)'']]
     ''holidays.dat'' = Inr cal"
    unfolding cal_def by (simp add: load_holidays_def parse_defs ymd_defs)
  have h: "is_holiday cal (Date (ymd2ord 2022 12 26)) ''US/Eastern''"
    unfolding cal_def by (simp add: is_holiday_def ymd_defs)
  note t = get_business_days_ignores_holidays [OF l example_valid(1,2)
      well_formed_examples(2) [OF example_valid(3) well_behaved_examples(2)],
      of "''US/Eastern''" "naive (mk_datetime 2023 1 2 0 0)"]
  from t have g: "get_business_days cal (mk_datetime 2022 12 22 0 0)
                    (mk_datetime 2023 1 2 0 0) = Inr 8"
    by (simp add: example_defs)
  from t have z: "is_holiday_tz cal (aware (mk_datetime 2022 12 26 0 0) EST) ''US/Eastern''
                  = Inr False"
    by simp
  from l h g z show ?thesis unfolding cal_def by simp
qed

text \<open>
  C10 as stated fails where no count is returned: with a loaded calendar, from
  9999-12-30 to 9999-12-31 the plain count of Monday-to-Friday days is 2 and
  \<open>get_business_days\<close> raises \<^verbatim>\<open>OverflowError\<close>; from a naive datetime to one with a
  timezone it raises \<^verbatim>\<open>TypeError\<close>.
\<close>

theorem get_business_days_overflow_counterexample:
  "load_holidays
     [''holidays.dat'' \<mapsto> [''Timezone, Date, Holiday'',
                           ''US/Eastern, 20221226, Christmas Day (observed)'']]
     ''holidays.dat''
   = Inr [''US/Eastern'' \<mapsto> [Date (ymd2ord 2022 12 26) \<mapsto> ''Christmas Day (observed)'']] \<and>
   get_business_days
     [''US/Eastern'' \<mapsto> [Date (ymd2ord 2022 12 26) \<mapsto> ''Christmas Day (observed)'']]
     (mk_datetime 9999 12 30 0 0) (mk_datetime 9999 12 31 0 0) = Inl OverflowError \<and>
   count_days (\<lambda>d. weekday d < 5) (mk_datetime 9999 12 30 0 0)
     (ordinal (mk_datetime 9999 12 30 0 0)) (ordinal (mk_datetime 9999 12 31 0 0)) = 2 \<and>
   get_business_days_tz
     [''US/Eastern'' \<mapsto> [Date (ymd2ord 2022 12 26) \<mapsto> ''Christmas Day (observed)'']]
     (naive (mk_datetime 2022 12 22 0 0)) (aware (mk_datetime 2023 1 2 0 0) UTC)
     = Inl TypeError"
proof -
  have l: "load_holidays
     [''holidays.dat'' \<mapsto> [''Timezone, Date, Holiday'',
                           ''US/Eastern, 20221226, Christmas Day (observed)'']]
     ''holidays.dat''
   = Inr [''US/Eastern'' \<mapsto> [Date (ymd2ord 2022 12 26) \<mapsto> ''Christmas Day (observed)'']]"
    by (simp add: load_holidays_def parse_defs ymd_defs)
  have o: "get_business_days
     [''US/Eastern'' \<mapsto> [Date (ymd2ord 2022 12 26) \<mapsto> ''Christmas Day (observed)'']]
     (mk_datetime 9999 12 30 0 0) (mk_datetime 9999 12 31 0 0) = Inl OverflowError"
    unfolding get_business_days_valid [OF example_valid(5,4)] by (simp add: example_defs)
  have c: "count_days (\<lambda>d. weekday d < 5) (mk_datetime 9999 12 30 0 0)
     (ordinal (mk_datetime 9999 12 30 0 0)) (ordinal (mk_datetime 9999 12 31 0 0)) = 2"
    by (simp add: example_defs)
  note v = aware_valid [OF well_behaved_examples(1) example_valid(2)]
  have n: "valid_tz_datetime (naive (mk_datetime 2022 12 22 0 0))"
    unfolding valid_naive by (rule example_valid(1))
  have e: "get_business_days_tz
     [''US/Eastern'' \<mapsto> [Date (ymd2ord 2022 12 26) \<mapsto> ''Christmas Day (observed)'']]
     (naive (mk_datetime 2022 12 22 0 0)) (aware (mk_datetime 2023 1 2 0 0) UTC)
     = Inl TypeError"
    by (rule loops_mixed(2) [OF n v(1) aware_not_subtractable(2) [OF v(2)]])
  from l o c e show ?thesis by simp
qed

end
